theory Spec2Isabelle
  imports Main "HOL-Library.Sublist"
begin

section \<open>Errors, strings and formatting\<close>

text \<open>
  A Go \<open>error\<close> is an interface value; \<open>nil\<close> is \<open>None\<close> of \<open>error option\<close>.
  The driver compares errors by identity with the sentinel \<open>gorm.ErrRecordNotFound\<close>
  and otherwise only reads their message, so an error is either that sentinel or an
  \<open>errorString\<close> made by \<open>errors.New\<close> / \<open>fmt.Errorf\<close>.
\<close>

datatype error = ErrRecordNotFound | errorString string

fun Error :: "error \<Rightarrow> string" where
  "Error ErrRecordNotFound = ''record not found''"
| "Error (errorString s) = s"

text \<open>\<open>strings.HasPrefix\<close>, \<open>strings.HasSuffix\<close> and \<open>strings.Contains\<close>.\<close>

definition HasPrefix :: "string \<Rightarrow> string \<Rightarrow> bool" where
  "HasPrefix s pre = (length s \<ge> length pre \<and> take (length pre) s = pre)"

definition HasSuffix :: "string \<Rightarrow> string \<Rightarrow> bool" where
  "HasSuffix s suf = (length s \<ge> length suf \<and> drop (length s - length suf) s = suf)"

fun Contains :: "string \<Rightarrow> string \<Rightarrow> bool" where
  "Contains [] substr = (substr = [])"
| "Contains (c # s) substr = (HasPrefix (c # s) substr \<or> Contains s substr)"

text \<open>The verb \<open>%v\<close> of \<open>fmt\<close> on an integer: its decimal digits, with a sign.\<close>

definition digit :: "nat \<Rightarrow> char" where
  "digit d = ''0123456789'' ! d"

fun showNat :: "nat \<Rightarrow> string" where
  "showNat n = (if n < 10 then [digit n] else showNat (n div 10) @ [digit (n mod 10)])"

declare showNat.simps [simp del]

definition showInt :: "int \<Rightarrow> string" where
  "showInt i = (if i < 0 then CHR ''-'' # showNat (nat (- i)) else showNat (nat i))"

text \<open>The verb \<open>%v\<close> on an error value, which may be nil.\<close>

definition showError :: "error option \<Rightarrow> string" where
  "showError e = (case e of None \<Rightarrow> ''<nil>'' | Some err \<Rightarrow> Error err)"

section \<open>errorlib.Merge\<close>

text \<open>
  The loop of \<open>Merge\<close> over \<open>errs\<close>, carrying the buffer and \<open>numErrors\<close>.
\<close>

fun Merge_loop :: "error option list \<Rightarrow> string \<Rightarrow> int \<Rightarrow> string \<times> int" where
  "Merge_loop [] buf numErrors = (buf, numErrors)"
| "Merge_loop (err # errs) buf numErrors =
     (case err of
        None \<Rightarrow> Merge_loop errs buf numErrors
      | Some e \<Rightarrow>
          Merge_loop errs ((if numErrors > 0 then buf @ '', '' else buf) @ Error e) (numErrors + 1))"

definition Merge :: "error option list \<Rightarrow> error option" where
  "Merge errs =
     (if length errs = 0 then None
      else if length errs = 1 then errs ! 0
      else (case Merge_loop errs [] 0 of
              (buf, numErrors) \<Rightarrow>
                if numErrors = 0 then None
                else if numErrors = 1 then Some (errorString buf)
                else Some (errorString (showInt numErrors @ '' errors: '' @ buf))))"

text \<open>
  The words of the specification of \<open>Merge\<close>: the non-nil elements of a slice, in
  order, and messages joined by a separator (\<open>strings.Join\<close>).
\<close>

fun nonNil :: "error option list \<Rightarrow> error list" where
  "nonNil [] = []"
| "nonNil (None # errs) = nonNil errs"
| "nonNil (Some e # errs) = e # nonNil errs"

fun Join :: "string list \<Rightarrow> string \<Rightarrow> string" where
  "Join [] sep = []"
| "Join [x] sep = x"
| "Join (x # y # ys) sep = x @ sep @ Join (y # ys) sep"

section \<open>Retrying a unit of work\<close>

text \<open>
  The fields of \<open>gorm.DB\<close> that the repository reads. The retry limit
  \<open>FdbRetryLimit\<close> is a package variable; the model takes it as an argument.
\<close>

record DB =
  DB_Error :: "error option"
  RowsAffected :: int

definition FdbErrNotCommitted :: string where
  "FdbErrNotCommitted = ''1020 - not_committed''"

definition FdbErrPastVersion :: string where
  "FdbErrPastVersion = ''1007 - past_version''"

definition FdbErrOnlineDdlInProgress :: string where
  "FdbErrOnlineDdlInProgress = ''Online DDL in progress for''"

definition IsRetriableDbError :: "error option \<Rightarrow> bool" where
  "IsRetriableDbError err =
     (case err of
        None \<Rightarrow> False
      | Some e \<Rightarrow>
          Contains (Error e) FdbErrNotCommitted \<or> Contains (Error e) FdbErrPastVersion
          \<or> Contains (Error e) FdbErrOnlineDdlInProgress)"

text \<open>
  Go's \<open>int\<close> is a two's complement integer, of 64 bits on a 64-bit platform, and
  its arithmetic wraps around: so does \<open>attemptNumber += 1\<close>. The model takes the 64-bit
  \<open>int\<close>.
\<close>

definition int_wrap :: "int \<Rightarrow> int" where
  "int_wrap x = (x + 2 ^ 63) mod 2 ^ 64 - 2 ^ 63"

text \<open>
  \<open>DbFnWithRetry\<close>. The unit of work \<open>fn\<close> is a closure: it reads and changes a
  state \<open>'s\<close> and returns a \<open>*gorm.DB\<close>, which may be nil. The loop has no bound when
  the limit is not positive, so not returning is the value \<open>None\<close>. The sleep between
  attempts has no effect on the result and is left out.
\<close>

partial_function (option) DbFnWithRetry_loop ::
  "int \<Rightarrow> ('s \<Rightarrow> DB option \<times> 's) \<Rightarrow> int \<Rightarrow> DB option \<Rightarrow> 's \<Rightarrow> (DB \<times> 's) option" where
  "DbFnWithRetry_loop FdbRetryLimit fn attemptNumber res0 s =
     (if FdbRetryLimit > 0 \<and> attemptNumber > FdbRetryLimit then
        (case res0 of
           None \<Rightarrow>
             Some (\<lparr>DB_Error = Some (errorString
                     (''oops, res0 is nil; is the retry limit > 0? If so, that's not allowed; FdbRetryLimit=''
                      @ showInt FdbRetryLimit)),
                    RowsAffected = 0\<rparr>, s)
         | Some r \<Rightarrow>
             Some (r\<lparr>DB_Error := Some (errorString
                     (''max allowed retries exceeded '' @ showInt attemptNumber @ ''/''
                      @ showInt FdbRetryLimit @ '': '' @ showError (DB_Error r)))\<rparr>, s))
      else
        (case fn s of
           (None, s') \<Rightarrow>
             Some (\<lparr>DB_Error = Some (errorString
                     (''oops, res0 is nil; is your fn returning a nil *gorm.DB? If so, that's not allowed; FdbRetryLimit=''
                      @ showInt FdbRetryLimit)),
                    RowsAffected = 0\<rparr>, s')
         | (Some r, s') \<Rightarrow>
             if DB_Error r \<noteq> None \<and> IsRetriableDbError (DB_Error r)
             then DbFnWithRetry_loop FdbRetryLimit fn (int_wrap (attemptNumber + 1)) (Some r) s'
             else Some (r, s')))"

definition DbFnWithRetry :: "int \<Rightarrow> ('s \<Rightarrow> DB option \<times> 's) \<Rightarrow> 's \<Rightarrow> (DB \<times> 's) option" where
  "DbFnWithRetry FdbRetryLimit fn s = DbFnWithRetry_loop FdbRetryLimit fn 0 None s"

text \<open>
  Counting invocations: the unit of work \<open>fn\<close> with a counter beside its state, one
  more at each call.
\<close>

definition counted :: "('s \<Rightarrow> 'r \<times> 's) \<Rightarrow> nat \<times> 's \<Rightarrow> 'r \<times> (nat \<times> 's)" where
  "counted fn = (\<lambda>(n, s). case fn s of (r, s') \<Rightarrow> (r, (Suc n, s')))"

text \<open>A unit of work that fails with the transient conflict at every call.\<close>

definition always_not_committed :: "unit \<Rightarrow> DB option \<times> unit" where
  "always_not_committed s =
     (Some \<lparr>DB_Error = Some (errorString ''1020 - not_committed''), RowsAffected = 0\<rparr>, s)"

section \<open>The repository driver\<close>

subsection \<open>Values, the connection ring and the backend\<close>

text \<open>
  The arguments of the driver's operations are \<open>interface{}\<close> values; \<open>DeleteMultiple\<close>
  asks \<open>reflect\<close> for their kind. \<open>'r\<close> is the type of the records stored.
\<close>

datatype 'r iface =
  INil | IBool bool | IInt int | IString string | IStruct 'r
  | IPtr "'r iface" | ISlice "'r iface list" | IMap "(string \<times> 'r iface) list"

datatype Kind =
  reflect_Invalid | reflect_Bool | reflect_Int | reflect_String | reflect_Struct
  | reflect_Ptr | reflect_Slice | reflect_Map

fun ValueOf_Kind :: "'r iface \<Rightarrow> Kind" where
  "ValueOf_Kind INil = reflect_Invalid"
| "ValueOf_Kind (IBool b) = reflect_Bool"
| "ValueOf_Kind (IInt i) = reflect_Int"
| "ValueOf_Kind (IString s) = reflect_String"
| "ValueOf_Kind (IStruct r) = reflect_Struct"
| "ValueOf_Kind (IPtr v) = reflect_Ptr"
| "ValueOf_Kind (ISlice vs) = reflect_Slice"
| "ValueOf_Kind (IMap kvs) = reflect_Map"

text \<open>
  \<open>container/ring\<close>: a cyclic list of cells and the cell the ring variable points to.
  \<open>ring.New\<close> leaves every cell empty; the constructor of the driver stores a
  connection string in each of them before any is read.
\<close>

record Ring =
  ring_cells :: "string list"
  ring_pos :: nat

definition ring_New :: "nat \<Rightarrow> Ring" where
  "ring_New n = \<lparr>ring_cells = replicate n [], ring_pos = 0\<rparr>"

definition ring_Value :: "Ring \<Rightarrow> string" where
  "ring_Value r = ring_cells r ! ring_pos r"

definition ring_set_Value :: "Ring \<Rightarrow> string \<Rightarrow> Ring" where
  "ring_set_Value r v = r\<lparr>ring_cells := (ring_cells r)[ring_pos r := v]\<rparr>"

definition ring_Next :: "Ring \<Rightarrow> Ring" where
  "ring_Next r = r\<lparr>ring_pos := (ring_pos r + 1) mod length (ring_cells r)\<rparr>"

text \<open>
  A \<open>*gorm.DB\<close> (a connection, a transaction or a statement's result) is a handle.
  The driver's mutex is left out: the model runs one operation at a time.
\<close>

type_synonym handle = nat

record GormRepositoryDriver =
  driverName :: string
  connectionStrings :: Ring
  currentDb :: "handle option"

text \<open>
  The values a database driver delivers for the columns of a row
  (\<open>database/sql/driver.Value\<close>), and a result set: its column names, or the error of
  \<open>rows.Columns()\<close>, and the rows that successive calls of \<open>rows.Next()\<close> deliver.
\<close>

datatype sql_value =
  SqlNull | SqlInt64 int | SqlBool bool | SqlBytes string | SqlString string

record sqlRows =
  rows_Columns :: "error + string list"
  rows_data :: "sql_value list list"

text \<open>
  Everything behind the driver is a parameter: the database, gorm and
  \<open>database/sql\<close>. Each call reads and changes the world \<open>'w\<close> (the database, the
  network, the records that the caller's pointers point to) and returns what the
  call returns in Go.
  \<^item> \<open>DbConnect\<close> is the package's function of that name (\<open>gorm.Open\<close>, then a ping);
  \<^item> \<open>gorm_Begin\<close>, \<open>gorm_Rollback\<close>, \<open>gorm_Commit\<close> return the \<open>Error\<close> field of the
    \<open>*gorm.DB\<close> that \<open>Begin()\<close>, \<open>Rollback()\<close>, \<open>Commit()\<close> return;
  \<^item> \<open>gorm_UpdateColumns tx v vs\<close> is \<open>tx.Model(v).UpdateColumns(vs)\<close>: its \<open>Error\<close> and
    \<open>RowsAffected\<close>; \<open>gorm_First db v\<close> is \<open>db.Where(v).First(v)\<close>;
  \<^item> \<open>gorm_Raw\<close>, \<open>gorm_Rows\<close>, \<open>gorm_Scan\<close> are \<open>db.Raw(query, args...)\<close>,
    \<open>res.Rows()\<close> and \<open>res.Scan(result)\<close>;
  \<^item> the last fields are what \<open>rows.Scan\<close> of \<open>database/sql\<close> does with one column
    value for a destination of each type, and its errors for a wrong number of
    destinations and for a call with no current row.
\<close>

record ('r, 'w) Backend =
  DbConnect :: "string \<Rightarrow> string \<Rightarrow> 'w \<Rightarrow> (error + handle) \<times> 'w"
  gorm_Begin :: "handle \<Rightarrow> 'w \<Rightarrow> (handle \<times> error option) \<times> 'w"
  gorm_Rollback :: "handle \<Rightarrow> 'w \<Rightarrow> error option \<times> 'w"
  gorm_Commit :: "handle \<Rightarrow> 'w \<Rightarrow> error option \<times> 'w"
  gorm_Save :: "handle \<Rightarrow> 'r iface \<Rightarrow> 'w \<Rightarrow> error option \<times> 'w"
  gorm_UpdateColumns :: "handle \<Rightarrow> 'r iface \<Rightarrow> 'r iface \<Rightarrow> 'w \<Rightarrow> (error option \<times> int) \<times> 'w"
  gorm_Delete :: "handle \<Rightarrow> 'r iface \<Rightarrow> 'w \<Rightarrow> error option \<times> 'w"
  gorm_First :: "handle \<Rightarrow> 'r iface \<Rightarrow> 'w \<Rightarrow> error option \<times> 'w"
  gorm_Create :: "handle \<Rightarrow> 'r iface \<Rightarrow> 'w \<Rightarrow> error option \<times> 'w"
  gorm_Raw :: "handle \<Rightarrow> string \<Rightarrow> 'r iface list \<Rightarrow> 'w \<Rightarrow> (handle \<times> error option) \<times> 'w"
  gorm_Rows :: "handle \<Rightarrow> 'w \<Rightarrow> (error + sqlRows) \<times> 'w"
  gorm_Scan :: "handle \<Rightarrow> 'w \<Rightarrow> error option \<times> 'w"
  conv_bool :: "sql_value \<Rightarrow> error + bool"
  conv_int :: "sql_value \<Rightarrow> error + int"
  conv_int64 :: "sql_value \<Rightarrow> error + int"
  conv_byte :: "sql_value \<Rightarrow> error + char"
  conv_bytes :: "sql_value \<Rightarrow> error + string"
  conv_string :: "sql_value \<Rightarrow> error + string"
  scan_count_error :: "nat \<Rightarrow> nat \<Rightarrow> error"
  scan_no_row_error :: error

subsection \<open>Construction, acquiring and invalidating the connection\<close>

text \<open>
  \<open>NewGormRepositoryDriver\<close>. \<open>ring.New(0)\<close> is a nil ring, and the log line after the
  loop reads its \<open>Value\<close>: with no connection string the constructor panics, which is
  \<open>None\<close>.
\<close>

definition NewGormRepositoryDriver :: "string \<Rightarrow> string list \<Rightarrow> GormRepositoryDriver option" where
  "NewGormRepositoryDriver name strs =
     (if length strs = 0 then None
      else Some \<lparr>driverName = name,
                 connectionStrings =
                   fold (\<lambda>connectionString r. ring_Next (ring_set_Value r connectionString))
                     strs (ring_New (length strs)),
                 currentDb = None\<rparr>)"

definition db ::
  "('r, 'w) Backend \<Rightarrow> GormRepositoryDriver \<Rightarrow> 'w \<Rightarrow> (error + handle) \<times> GormRepositoryDriver \<times> 'w" where
  "db env driver w =
     (case currentDb driver of
        None \<Rightarrow>
          (case DbConnect env (driverName driver) (ring_Value (connectionStrings driver)) w of
             (r, w') \<Rightarrow>
               let driver' = driver\<lparr>connectionStrings := ring_Next (connectionStrings driver)\<rparr>
               in (case r of
                     Inl err \<Rightarrow> (Inl err, driver', w')
                   | Inr h \<Rightarrow> (Inr h, driver'\<lparr>currentDb := Some h\<rparr>, w')))
      | Some h \<Rightarrow> (Inr h, driver, w))"

definition reset :: "GormRepositoryDriver \<Rightarrow> GormRepositoryDriver" where
  "reset driver = driver\<lparr>currentDb := None\<rparr>"

definition isConnectionError :: "error \<Rightarrow> bool" where
  "isConnectionError err =
     (if HasPrefix (Error err) ''dial tcp '' \<and> HasSuffix (Error err) '': connection refused''
      then True else False)"

text \<open>
  \<open>withDb\<close>. The unit of work \<open>fn\<close> is a closure over the caller's variables
  (\<open>created\<close>, \<open>rowsAffected\<close>, the destination of a raw query): \<open>'l\<close> is their state.
\<close>

definition withDb ::
  "('r, 'w) Backend \<Rightarrow> (handle \<Rightarrow> 'l \<Rightarrow> 'w \<Rightarrow> error option \<times> 'l \<times> 'w)
   \<Rightarrow> GormRepositoryDriver \<Rightarrow> 'l \<Rightarrow> 'w \<Rightarrow> error option \<times> GormRepositoryDriver \<times> 'l \<times> 'w" where
  "withDb env fn driver l w =
     (case db env driver w of
        (Inl err, driver', w') \<Rightarrow> (Some err, driver', l, w')
      | (Inr h, driver', w') \<Rightarrow>
          (case fn h l w' of
             (Some err, l', w'') \<Rightarrow>
               if isConnectionError err then (Some err, reset driver', l', w'')
               else (Some err, driver', l', w'')
           | (None, l', w'') \<Rightarrow> (None, driver', l', w'')))"

subsection \<open>Transactions\<close>

fun run_txFuncs ::
  "(handle \<Rightarrow> 'l \<Rightarrow> 'w \<Rightarrow> error option \<times> 'l \<times> 'w) list \<Rightarrow> handle \<Rightarrow> 'l \<Rightarrow> 'w
   \<Rightarrow> error option \<times> 'l \<times> 'w" where
  "run_txFuncs [] tx l w = (None, l, w)"
| "run_txFuncs (fn # fns) tx l w =
     (case fn tx l w of
        (Some err, l', w') \<Rightarrow> (Some err, l', w')
      | (None, l', w') \<Rightarrow> run_txFuncs fns tx l' w')"

definition inTransaction ::
  "('r, 'w) Backend \<Rightarrow> (handle \<Rightarrow> 'l \<Rightarrow> 'w \<Rightarrow> error option \<times> 'l \<times> 'w) list
   \<Rightarrow> GormRepositoryDriver \<Rightarrow> 'l \<Rightarrow> 'w \<Rightarrow> error option \<times> GormRepositoryDriver \<times> 'l \<times> 'w" where
  "inTransaction env txFuncs driver l w =
     withDb env
       (\<lambda>h l w.
          case gorm_Begin env h w of
            ((tx, Some err), w1) \<Rightarrow>
              (case gorm_Rollback env tx w1 of
                 (rerr, w2) \<Rightarrow> (Merge [Some err, rerr], l, w2))
          | ((tx, None), w1) \<Rightarrow>
              (case run_txFuncs txFuncs tx l w1 of
                 (Some err, l', w2) \<Rightarrow>
                   (case gorm_Rollback env tx w2 of
                      (rerr, w3) \<Rightarrow> (Merge [Some err, rerr], l', w3))
               | (None, l', w2) \<Rightarrow>
                   (case gorm_Commit env tx w2 of
                      (Some err, w3) \<Rightarrow>
                        (case gorm_Rollback env tx w3 of
                           (rerr, w4) \<Rightarrow> (Merge [Some err, rerr], l', w4))
                    | (None, w3) \<Rightarrow> (None, l', w3))))
       driver l w"

subsection \<open>Saving, updating, deleting\<close>

definition Save ::
  "('r, 'w) Backend \<Rightarrow> 'r iface \<Rightarrow> GormRepositoryDriver \<Rightarrow> 'w
   \<Rightarrow> error option \<times> GormRepositoryDriver \<times> 'w" where
  "Save env v driver w =
     (case withDb env (\<lambda>h l w. case gorm_Save env h v w of (err, w') \<Rightarrow> (err, l, w')) driver () w of
        (err, driver', l, w') \<Rightarrow> (err, driver', w'))"

fun save_each :: "('r, 'w) Backend \<Rightarrow> handle \<Rightarrow> 'r iface list \<Rightarrow> 'w \<Rightarrow> error option \<times> 'w" where
  "save_each env tx [] w = (None, w)"
| "save_each env tx (v # vs) w =
     (case gorm_Save env tx v w of
        (Some err, w') \<Rightarrow> (Some err, w')
      | (None, w') \<Rightarrow> save_each env tx vs w')"

definition SaveMultiple ::
  "('r, 'w) Backend \<Rightarrow> 'r iface list \<Rightarrow> GormRepositoryDriver \<Rightarrow> 'w
   \<Rightarrow> error option \<times> GormRepositoryDriver \<times> 'w" where
  "SaveMultiple env vs driver w =
     (if length vs = 0 then (None, driver, w)
      else (case inTransaction env
                   [\<lambda>tx l w. case save_each env tx vs w of (err, w') \<Rightarrow> (err, l, w')] driver () w of
              (err, driver', l, w') \<Rightarrow> (err, driver', w')))"

text \<open>\<open>Update\<close> returns \<open>rowsAffected\<close>, a variable that its unit of work assigns.\<close>

definition Update ::
  "('r, 'w) Backend \<Rightarrow> 'r iface \<Rightarrow> 'r iface \<Rightarrow> GormRepositoryDriver \<Rightarrow> 'w
   \<Rightarrow> (int \<times> error option) \<times> GormRepositoryDriver \<times> 'w" where
  "Update env v vs driver w =
     (case withDb env
             (\<lambda>h rowsAffected w.
                case gorm_UpdateColumns env h v vs w of
                  ((Some err, n), w') \<Rightarrow> (Some err, rowsAffected, w')
                | ((None, n), w') \<Rightarrow> (None, n, w'))
             driver 0 w of
        (Some err, driver', rowsAffected, w') \<Rightarrow>
          ((rowsAffected, Some (errorString (''gorm driver: upd- '' @ Error err))), driver', w')
      | (None, driver', rowsAffected, w') \<Rightarrow> ((rowsAffected, None), driver', w'))"

definition UpdateSingle ::
  "('r, 'w) Backend \<Rightarrow> 'r iface \<Rightarrow> 'r iface \<Rightarrow> GormRepositoryDriver \<Rightarrow> 'w
   \<Rightarrow> error option \<times> GormRepositoryDriver \<times> 'w" where
  "UpdateSingle env v vs driver w =
     (case inTransaction env
             [\<lambda>tx l w.
                case gorm_UpdateColumns env tx v vs w of
                  ((Some err, n), w') \<Rightarrow> (Some err, l, w')
                | ((None, rowsAffected), w') \<Rightarrow>
                    if rowsAffected \<noteq> 1 then
                      (Some (errorString
                         (''gorm driver: upd1- 1 row should have been affected but instead ''
                          @ showInt rowsAffected @ '' rows were affected'')), l, w')
                    else (None, l, w')]
             driver () w of
        (err, driver', l, w') \<Rightarrow> (err, driver', w'))"

definition Delete ::
  "('r, 'w) Backend \<Rightarrow> 'r iface \<Rightarrow> GormRepositoryDriver \<Rightarrow> 'w
   \<Rightarrow> error option \<times> GormRepositoryDriver \<times> 'w" where
  "Delete env v driver w =
     (case withDb env
             (\<lambda>h l w.
                case gorm_Delete env h v w of
                  (Some err, w') \<Rightarrow> (Some (errorString (''gorm driver: del- '' @ Error err)), l, w')
                | (None, w') \<Rightarrow> (None, l, w'))
             driver () w of
        (err, driver', l, w') \<Rightarrow> (err, driver', w'))"

fun delete_each :: "('r, 'w) Backend \<Rightarrow> handle \<Rightarrow> 'r iface list \<Rightarrow> 'w \<Rightarrow> error option \<times> 'w" where
  "delete_each env tx [] w = (None, w)"
| "delete_each env tx (v # vs) w =
     (case gorm_Delete env tx v w of
        (Some err, w') \<Rightarrow> (Some err, w')
      | (None, w') \<Rightarrow> delete_each env tx vs w')"

definition DeleteMultiple ::
  "('r, 'w) Backend \<Rightarrow> 'r iface list \<Rightarrow> GormRepositoryDriver \<Rightarrow> 'w
   \<Rightarrow> error option \<times> GormRepositoryDriver \<times> 'w" where
  "DeleteMultiple env vs driver w =
     (if length vs = 0 then (None, driver, w)
      else if length vs = 1 \<and> ValueOf_Kind (vs ! 0) = reflect_Slice then
        (Some (errorString
           ''gorm driver: dlm- invalid arguments to DeleteMultiple; did you forget the `...`?''),
         driver, w)
      else (case inTransaction env
                   [\<lambda>tx l w. case delete_each env tx vs w of (err, w') \<Rightarrow> (err, l, w')] driver () w of
              (Some err, driver', l, w') \<Rightarrow>
                (Some (errorString (''gorm driver: dlm- '' @ Error err)), driver', w')
            | (None, driver', l, w') \<Rightarrow> (None, driver', w')))"

subsection \<open>GetOrCreate\<close>

text \<open>The unit of work assigns the named result \<open>created\<close>, which starts as false.\<close>

definition GetOrCreate ::
  "('r, 'w) Backend \<Rightarrow> 'r iface \<Rightarrow> GormRepositoryDriver \<Rightarrow> 'w
   \<Rightarrow> (bool \<times> error option) \<times> GormRepositoryDriver \<times> 'w" where
  "GetOrCreate env v driver w =
     (case withDb env
             (\<lambda>h created w.
                case gorm_First env h v w of
                  (err, w1) \<Rightarrow>
                    if err = Some ErrRecordNotFound then
                      (case gorm_Create env h v w1 of (err', w2) \<Rightarrow> (err', True, w2))
                    else (err, created, w1))
             driver False w of
        (Some err, driver', created, w') \<Rightarrow>
          ((created, Some (errorString (''gorm driver: goc- '' @ Error err))), driver', w')
      | (None, driver', created, w') \<Rightarrow> ((created, None), driver', w'))"

subsection \<open>Raw queries\<close>

text \<open>
  \<open>rows.Scan\<close> with \<open>n\<close> destinations of one type on the current row: an error when
  the row has another number of columns, otherwise each column converted in turn, the
  first failure being the error.
\<close>

fun convert_all :: "(sql_value \<Rightarrow> error + 'a) \<Rightarrow> sql_value list \<Rightarrow> error + 'a list" where
  "convert_all conv [] = Inr []"
| "convert_all conv (c # cs) =
     (case conv c of
        Inl e \<Rightarrow> Inl e
      | Inr x \<Rightarrow> (case convert_all conv cs of Inl e \<Rightarrow> Inl e | Inr xs \<Rightarrow> Inr (x # xs)))"

definition Scan ::
  "('r, 'w) Backend \<Rightarrow> (sql_value \<Rightarrow> error + 'a) \<Rightarrow> nat \<Rightarrow> sql_value list \<Rightarrow> error + 'a list" where
  "Scan env conv n row =
     (if length row \<noteq> n then Inl (scan_count_error env (length row) n) else convert_all conv row)"

text \<open>
  The destination of \<open>Raw\<close>: a non-nil pointer, given by its type and the value it
  points to. A map that is nil is \<open>None\<close>. The scalar, slice and map types are modelled;
  \<open>POther\<close> is a destination of a type that the switch does not list.
\<close>

datatype RawDest =
  PBool bool | PInt int | PInt64 int | PByte char | PString string
  | PBools "bool list" | PInts "int list" | PInt64s "int list" | PBytes "char list"
  | PStrings "string list"
  | PMapBool "(string \<rightharpoonup> bool) option" | PMapInt "(string \<rightharpoonup> int) option"
  | PMapInt64 "(string \<rightharpoonup> int) option" | PMapByte "(string \<rightharpoonup> char) option"
  | PMapBytes "(string \<rightharpoonup> string) option" | PMapString "(string \<rightharpoonup> string) option"
  | PMapIface "(string \<rightharpoonup> sql_value) option"
  | POther

text \<open>One call of \<open>rows.Next()\<close>, then one \<open>rows.Scan(&x)\<close>.\<close>

definition scan_first ::
  "('r, 'w) Backend \<Rightarrow> (sql_value \<Rightarrow> error + 'a) \<Rightarrow> sqlRows \<Rightarrow> error + 'a" where
  "scan_first env conv rows =
     (case rows_data rows of
        [] \<Rightarrow> Inl (scan_no_row_error env)
      | row # rest \<Rightarrow> (case Scan env conv 1 row of Inl e \<Rightarrow> Inl e | Inr xs \<Rightarrow> Inr (xs ! 0)))"

text \<open>\<open>for rows.Next() { rows.Scan(&x) }\<close>: the variable \<open>x\<close> after the loop.\<close>

fun scan_each ::
  "('r, 'w) Backend \<Rightarrow> (sql_value \<Rightarrow> error + 'a) \<Rightarrow> 'a \<Rightarrow> sql_value list list \<Rightarrow> error + 'a" where
  "scan_each env conv x [] = Inr x"
| "scan_each env conv x (row # rest) =
     (case Scan env conv 1 row of Inl e \<Rightarrow> Inl e | Inr xs \<Rightarrow> scan_each env conv (xs ! 0) rest)"

text \<open>\<open>for rows.Next() { rows.Scan(&x); slice = append(slice, x) }\<close>.\<close>

fun scan_append ::
  "('r, 'w) Backend \<Rightarrow> (sql_value \<Rightarrow> error + 'a) \<Rightarrow> 'a list \<Rightarrow> sql_value list list
   \<Rightarrow> error + 'a list" where
  "scan_append env conv slice [] = Inr slice"
| "scan_append env conv slice (row # rest) =
     (case Scan env conv 1 row of
        Inl e \<Rightarrow> Inl e
      | Inr xs \<Rightarrow> scan_append env conv (slice @ [xs ! 0]) rest)"

text \<open>
  The map destinations. \<open>assign_columns\<close> is the inner loop
  \<open>for i, column := range columns { (*assign)[column] = values[i] }\<close>; the map is
  shared with the caller, so the entries of the rows before a failing one stay.
\<close>

definition assign_columns :: "(string \<rightharpoonup> 'a) \<Rightarrow> string list \<Rightarrow> 'a list \<Rightarrow> (string \<rightharpoonup> 'a)" where
  "assign_columns m columns vals = fold (\<lambda>(column, v) m. m(column \<mapsto> v)) (zip columns vals) m"

fun map_rows ::
  "('r, 'w) Backend \<Rightarrow> (sql_value \<Rightarrow> error + 'a) \<Rightarrow> string list \<Rightarrow> (string \<rightharpoonup> 'a)
   \<Rightarrow> sql_value list list \<Rightarrow> error option \<times> (string \<rightharpoonup> 'a)" where
  "map_rows env conv columns m [] = (None, m)"
| "map_rows env conv columns m (row # rest) =
     (case Scan env conv (length columns) row of
        Inl e \<Rightarrow> (Some e, m)
      | Inr vals \<Rightarrow> map_rows env conv columns (assign_columns m columns vals) rest)"

definition raw_map ::
  "('r, 'w) Backend \<Rightarrow> (sql_value \<Rightarrow> error + 'a) \<Rightarrow> string \<Rightarrow> (string \<rightharpoonup> 'a) option \<Rightarrow> sqlRows
   \<Rightarrow> error option \<times> (string \<rightharpoonup> 'a) option" where
  "raw_map env conv msg assign rows =
     (let m = (case assign of None \<Rightarrow> Map.empty | Some m \<Rightarrow> m) in
        case rows_Columns rows of
          Inl err \<Rightarrow> (Some (errorString (msg @ Error err)), Some m)
        | Inr columns \<Rightarrow>
            (case map_rows env conv columns m (rows_data rows) of (err, m') \<Rightarrow> (err, Some m')))"

text \<open>
  The type switch of \<open>Raw\<close> on the destination. A destination of type
  \<open>*interface{}\<close> takes any column value as it is.
\<close>

definition Raw_switch ::
  "('r, 'w) Backend \<Rightarrow> handle \<Rightarrow> sqlRows \<Rightarrow> RawDest \<Rightarrow> 'w \<Rightarrow> error option \<times> RawDest \<times> 'w" where
  "Raw_switch env res rows result w =
     (case result of
        PBool a \<Rightarrow>
          (case scan_first env (conv_bool env) rows of
             Inl e \<Rightarrow> (Some e, result, w) | Inr x \<Rightarrow> (None, PBool x, w))
      | PInt a \<Rightarrow>
          (case scan_each env (conv_int env) 0 (rows_data rows) of
             Inl e \<Rightarrow> (Some e, result, w) | Inr x \<Rightarrow> (None, PInt x, w))
      | PInt64 a \<Rightarrow>
          (case scan_first env (conv_int64 env) rows of
             Inl e \<Rightarrow> (Some e, result, w) | Inr x \<Rightarrow> (None, PInt64 x, w))
      | PByte a \<Rightarrow>
          (case scan_first env (conv_byte env) rows of
             Inl e \<Rightarrow> (Some e, result, w) | Inr x \<Rightarrow> (None, PByte x, w))
      | PString a \<Rightarrow>
          (case scan_first env (conv_string env) rows of
             Inl e \<Rightarrow> (Some e, result, w) | Inr x \<Rightarrow> (None, PString x, w))
      | PBools a \<Rightarrow>
          (case scan_append env (conv_bool env) [] (rows_data rows) of
             Inl e \<Rightarrow> (Some e, result, w) | Inr xs \<Rightarrow> (None, PBools xs, w))
      | PInts a \<Rightarrow>
          (case scan_append env (conv_int env) [] (rows_data rows) of
             Inl e \<Rightarrow> (Some e, result, w) | Inr xs \<Rightarrow> (None, PInts xs, w))
      | PInt64s a \<Rightarrow>
          (case scan_append env (conv_int64 env) [] (rows_data rows) of
             Inl e \<Rightarrow> (Some e, result, w) | Inr xs \<Rightarrow> (None, PInt64s xs, w))
      | PBytes a \<Rightarrow>
          (case scan_append env (conv_byte env) [] (rows_data rows) of
             Inl e \<Rightarrow> (Some e, result, w) | Inr xs \<Rightarrow> (None, PBytes xs, w))
      | PStrings a \<Rightarrow>
          (case scan_append env (conv_string env) [] (rows_data rows) of
             Inl e \<Rightarrow> (Some e, result, w) | Inr xs \<Rightarrow> (None, PStrings xs, w))
      | PMapBool a \<Rightarrow>
          (case raw_map env (conv_bool env)
                  ''gorm driver: getting columns from result T=*map[string]bool rows: '' a rows of
             (err, m) \<Rightarrow> (err, PMapBool m, w))
      | PMapInt a \<Rightarrow>
          (case raw_map env (conv_int env)
                  ''gorm driver: getting columns from result T=*map[string]int rows: '' a rows of
             (err, m) \<Rightarrow> (err, PMapInt m, w))
      | PMapInt64 a \<Rightarrow>
          (case raw_map env (conv_int64 env)
                  ''getting columns from result T=*map[string]int64 rows: '' a rows of
             (err, m) \<Rightarrow> (err, PMapInt64 m, w))
      | PMapByte a \<Rightarrow>
          (case raw_map env (conv_byte env)
                  ''getting columns from result T=*map[string]uint8 rows: '' a rows of
             (err, m) \<Rightarrow> (err, PMapByte m, w))
      | PMapBytes a \<Rightarrow>
          (case raw_map env (conv_bytes env)
                  ''getting columns from result T=*map[string][]uint8 rows: '' a rows of
             (err, m) \<Rightarrow> (err, PMapBytes m, w))
      | PMapString a \<Rightarrow>
          (case raw_map env (conv_string env)
                  ''getting columns from result T=*map[string]string rows: '' a rows of
             (err, m) \<Rightarrow> (err, PMapString m, w))
      | PMapIface a \<Rightarrow>
          (case raw_map env Inr
                  ''getting columns from result T=*map[string]interface {} rows: '' a rows of
             (err, m) \<Rightarrow> (err, PMapIface m, w))
      | POther \<Rightarrow>
          (case gorm_Scan env res w of (err, w') \<Rightarrow> (err, POther, w')))"

definition Raw ::
  "('r, 'w) Backend \<Rightarrow> RawDest \<Rightarrow> string \<Rightarrow> 'r iface list \<Rightarrow> GormRepositoryDriver \<Rightarrow> 'w
   \<Rightarrow> error option \<times> GormRepositoryDriver \<times> RawDest \<times> 'w" where
  "Raw env result query args driver w =
     (case withDb env
             (\<lambda>h result w.
                case gorm_Raw env h query args w of
                  ((res, Some err), w1) \<Rightarrow> (Some err, result, w1)
                | ((res, None), w1) \<Rightarrow>
                    (case gorm_Rows env res w1 of
                       (Inl err, w2) \<Rightarrow> (Some err, result, w2)
                     | (Inr rows, w2) \<Rightarrow> Raw_switch env res rows result w2))
             driver result w of
        (Some err, driver', result', w') \<Rightarrow>
          (Some (errorString (''gorm driver: raw- '' @ Error err)), driver', result', w')
      | (None, driver', result', w') \<Rightarrow> (None, driver', result', w'))"

text \<open>
  The words of the specification for a map destination, as the code has them. After a
  call that succeeds the column names could be read and every row was scanned. With no
  row the mapping holds the entries it had before the call (none when it was nil). With
  at least one row it holds those entries and over them one entry for each column name,
  with the scanned value of the last row (for a name that occurs twice, of its last
  column): its keys are the earlier keys and the column names, and with distinct column
  names each column name maps to the last row's value of that column.
\<close>

definition map_after_rows ::
  "('r, 'w) Backend \<Rightarrow> (sql_value \<Rightarrow> error + 'a) \<Rightarrow> sqlRows \<Rightarrow> (string \<rightharpoonup> 'a) option
   \<Rightarrow> (string \<rightharpoonup> 'a) \<Rightarrow> bool" where
  "map_after_rows env conv rows assign m' =
     (\<exists>columns.
        rows_Columns rows = Inr columns
        \<and> (\<forall>row\<in>set (rows_data rows). \<exists>vals. Scan env conv (length columns) row = Inr vals)
        \<and> (if rows_data rows = [] then m' = (case assign of None \<Rightarrow> Map.empty | Some m \<Rightarrow> m)
            else (\<exists>vals.
                    Scan env conv (length columns) (last (rows_data rows)) = Inr vals
                    \<and> m' = (case assign of None \<Rightarrow> Map.empty | Some m \<Rightarrow> m)
                             ++ map_of (rev (zip columns vals))
                    \<and> dom m' = dom (case assign of None \<Rightarrow> Map.empty | Some m \<Rightarrow> m)
                               \<union> set columns
                    \<and> (distinct columns \<longrightarrow>
                          (\<forall>i<length columns. m' (columns ! i) = Some (vals ! i))))))"

section \<open>A backend to run the driver on\<close>

text \<open>
  A small backend for the examples: its world is the log of the calls made. Connecting
  to the descriptor \<open>down\<close> is refused; a transaction's handle is the connection's plus
  one; an update given \<open>IInt n\<close> as its values affects \<open>n\<close> rows; no record is ever
  found, and creating \<open>IString s\<close> fails with the message \<open>s\<close>; the query \<open>bits\<close> has
  one column and two rows, the query \<open>luke\<close> three columns and one row, any other
  query three columns and no row.
\<close>

definition demo_rows :: "handle \<Rightarrow> sqlRows" where
  "demo_rows res =
     (if res = 100 then
        \<lparr>rows_Columns = Inr [''bit''], rows_data = [[SqlInt64 1], [SqlInt64 0]]\<rparr>
      else if res = 101 then
        \<lparr>rows_Columns = Inr [''id'', ''name'', ''home_planet''],
         rows_data = [[SqlInt64 1, SqlBytes ''Luke'', SqlBytes ''Tatooine'']]\<rparr>
      else \<lparr>rows_Columns = Inr [''id'', ''name'', ''home_planet''], rows_data = []\<rparr>)"

definition demo_conv_int :: "sql_value \<Rightarrow> error + int" where
  "demo_conv_int c =
     (case c of SqlInt64 n \<Rightarrow> Inr n | _ \<Rightarrow> Inl (errorString ''sql: Scan error''))"

definition demo_conv_bool :: "sql_value \<Rightarrow> error + bool" where
  "demo_conv_bool c =
     (case c of
        SqlBool b \<Rightarrow> Inr b
      | SqlInt64 n \<Rightarrow>
          if n = 0 then Inr False else if n = 1 then Inr True
          else Inl (errorString ''sql: Scan error'')
      | _ \<Rightarrow> Inl (errorString ''sql: Scan error''))"

definition demo_conv_string :: "sql_value \<Rightarrow> error + string" where
  "demo_conv_string c =
     (case c of
        SqlString s \<Rightarrow> Inr s
      | SqlBytes s \<Rightarrow> Inr s
      | SqlInt64 n \<Rightarrow> Inr (showInt n)
      | _ \<Rightarrow> Inl (errorString ''sql: Scan error''))"

definition demo_backend :: "(unit, string list) Backend" where
  "demo_backend =
     \<lparr>DbConnect = (\<lambda>name cs w.
        (if cs = ''down'' then Inl (errorString ''dial tcp 10.0.0.1:5432: connection refused'')
         else Inr 7, w @ [''connect '' @ cs])),
      gorm_Begin = (\<lambda>h w. ((h + 1, None), w @ [''begin''])),
      gorm_Rollback = (\<lambda>tx w. (None, w @ [''rollback''])),
      gorm_Commit = (\<lambda>tx w. (None, w @ [''commit''])),
      gorm_Save = (\<lambda>h v w. (None, w @ [''save''])),
      gorm_UpdateColumns = (\<lambda>h v vs w.
        ((None, (case vs of IInt n \<Rightarrow> n | _ \<Rightarrow> 1)), w @ [''update''])),
      gorm_Delete = (\<lambda>h v w. (None, w @ [''delete''])),
      gorm_First = (\<lambda>h v w. (Some ErrRecordNotFound, w @ [''first''])),
      gorm_Create = (\<lambda>h v w.
        ((case v of IString s \<Rightarrow> Some (errorString s) | _ \<Rightarrow> None), w @ [''create''])),
      gorm_Raw = (\<lambda>h query args w.
        ((if query = ''bits'' then 100 else if query = ''luke'' then 101 else 102, None),
         w @ [''raw ''  @ query])),
      gorm_Rows = (\<lambda>res w. (Inr (demo_rows res), w @ [''rows''])),
      gorm_Scan = (\<lambda>res w. (None, w @ [''scan''])),
      conv_bool = demo_conv_bool,
      conv_int = demo_conv_int,
      conv_int64 = demo_conv_int,
      conv_byte = (\<lambda>c. Inl (errorString ''sql: Scan error'')),
      conv_bytes = demo_conv_string,
      conv_string = demo_conv_string,
      scan_count_error = (\<lambda>k n. errorString ''sql: wrong number of destination arguments in Scan''),
      scan_no_row_error = errorString ''sql: Rows are closed''\<rparr>"

definition demo_driver :: GormRepositoryDriver where
  "demo_driver =
     \<lparr>driverName = ''postgres'',
      connectionStrings = \<lparr>ring_cells = [''alpha'', ''down'', ''gamma''], ring_pos = 0\<rparr>,
      currentDb = None\<rparr>"

text \<open>
  The backend that records in its world the connection string of every connect
  attempt, and lets the attempt succeed or fail as \<open>outcome\<close> says.
\<close>

definition recording :: "(string \<Rightarrow> error + handle) \<Rightarrow> (unit, string list) Backend" where
  "recording outcome = demo_backend\<lparr>DbConnect := (\<lambda>name cs w. (outcome cs, w @ [cs]))\<rparr>"

text \<open>
  \<open>k\<close> acquires in a row, each on a driver whose connection has been invalidated, as
  happens after \<open>k\<close> operations that each end with a connection error.
\<close>

fun reconnects ::
  "('r, 'w) Backend \<Rightarrow> nat \<Rightarrow> GormRepositoryDriver \<Rightarrow> 'w \<Rightarrow> GormRepositoryDriver \<times> 'w" where
  "reconnects env 0 driver w = (driver, w)"
| "reconnects env (Suc k) driver w =
     (case db env (reset driver) w of (r, driver', w') \<Rightarrow> reconnects env k driver' w')"

section \<open>Properties of Merge\<close>

lemma Merge_loop_nonNil:
  "Merge_loop errs buf n =
     ((if nonNil errs = [] then buf
       else (if n > 0 then buf @ '', '' else buf) @ Join (map Error (nonNil errs)) '', ''),
      n + int (length (nonNil errs)))"
  if "0 \<le> n"
  using that
proof (induction errs arbitrary: buf n)
  case Nil
  then show ?case by simp
next
  case (Cons err errs)
  show ?case
  proof (cases err)
    case None
    then show ?thesis using Cons by simp
  next
    case (Some e)
    have n1: "0 \<le> n + 1" "n + 1 > 0" using Cons.prems by simp_all
    show ?thesis
    proof (cases "nonNil errs")
      case Nil
      then show ?thesis using Some Cons.IH [OF n1(1)] n1 by simp
    next
      case (Cons e' es)
      then show ?thesis using Some Cons.IH [OF n1(1)] n1 by simp
    qed
  qed
qed

lemma showNat_digit: "n < 10 \<Longrightarrow> showNat n = [digit n]"
  by (simp add: showNat.simps)

text \<open>
  Claim C3. \<open>Merge\<close> yields no error when the slice has no non-nil element (the empty
  slice included); the message of the only non-nil element, unchanged, when there is
  exactly one; and for \<open>N \<ge> 2\<close> non-nil elements the count \<open>N\<close>, the text
  \<open>" errors: "\<close> and the non-nil messages in order, joined by \<open>", "\<close>.
\<close>

theorem Merge_spec:
  "(nonNil errs = [] \<longrightarrow> Merge errs = None)
   \<and> (\<forall>e. nonNil errs = [e] \<longrightarrow> (\<exists>r. Merge errs = Some r \<and> Error r = Error e))
   \<and> (2 \<le> length (nonNil errs) \<longrightarrow>
        (\<exists>r. Merge errs = Some r
           \<and> Error r = showInt (int (length (nonNil errs))) @ '' errors: ''
                        @ Join (map Error (nonNil errs)) '', ''))"
proof (cases "length errs = 0 \<or> length errs = 1")
  case True
  then consider "errs = []" | x where "errs = [x]"
    by (cases errs) auto
  then show ?thesis
  proof cases
    case 1
    then show ?thesis by (simp add: Merge_def)
  next
    case 2
    then show ?thesis by (cases x) (simp_all add: Merge_def)
  qed
next
  case False
  have loop: "Merge_loop errs [] 0 =
     ((if nonNil errs = [] then [] else Join (map Error (nonNil errs)) '', ''),
      int (length (nonNil errs)))"
    using Merge_loop_nonNil [of 0 errs "[]"] by simp
  show ?thesis
  proof (intro conjI impI allI)
    assume "nonNil errs = []"
    then show "Merge errs = None" using False loop by (simp add: Merge_def)
  next
    fix e assume "nonNil errs = [e]"
    then show "\<exists>r. Merge errs = Some r \<and> Error r = Error e"
      using False loop by (simp add: Merge_def)
  next
    assume "2 \<le> length (nonNil errs)"
    then have "nonNil errs \<noteq> []" "int (length (nonNil errs)) \<noteq> 0" "int (length (nonNil errs)) \<noteq> 1"
      by auto
    then show "\<exists>r. Merge errs = Some r
           \<and> Error r = showInt (int (length (nonNil errs))) @ '' errors: ''
                        @ Join (map Error (nonNil errs)) '', ''"
      using False loop by (simp add: Merge_def)
  qed
qed

theorem Merge_spec_witness:
  "Merge [None, None] = None
   \<and> (\<exists>r. Merge [None, Some (errorString ''boom''), None] = Some r \<and> Error r = ''boom'')
   \<and> (\<exists>r. Merge [Some (errorString ''a''), None, Some ErrRecordNotFound] = Some r
          \<and> Error r = ''2 errors: a, record not found'')"
  using Merge_spec [of "[None, None]"]
    Merge_spec [of "[None, Some (errorString ''boom''), None]"]
    Merge_spec [of "[Some (errorString ''a''), None, Some ErrRecordNotFound]"]
  by (simp add: showInt_def showNat_digit digit_def)

section \<open>Properties of DbFnWithRetry\<close>

lemma int_wrap_id: "- (2 ^ 63) \<le> x \<Longrightarrow> x < 2 ^ 63 \<Longrightarrow> int_wrap x = x"
  by (simp add: int_wrap_def)

lemma DbFnWithRetry_loop_exhaust:
  assumes K: "0 < K" "K < 2 ^ 63 - 1"
    and retriable: "\<forall>s. \<exists>r e. fst (fn s) = Some r \<and> DB_Error r = Some e \<and> IsRetriableDbError (Some e)"
  shows "0 \<le> a \<Longrightarrow> a \<le> K \<Longrightarrow> nat (K - a) = n \<Longrightarrow>
    \<exists>r e. fst (fn (((\<lambda>s. snd (fn s)) ^^ n) s)) = Some r \<and> DB_Error r = Some e
       \<and> IsRetriableDbError (Some e)
       \<and> DbFnWithRetry_loop K fn a r0 s =
           Some (r\<lparr>DB_Error := Some (errorString
                   (''max allowed retries exceeded '' @ showInt (K + 1) @ ''/'' @ showInt K
                    @ '': '' @ Error e))\<rparr>,
                 ((\<lambda>s. snd (fn s)) ^^ Suc n) s)"
proof (induction n arbitrary: a r0 s)
  case 0
  then have a: "a = K" by simp
  obtain r e where r: "fst (fn s) = Some r" "DB_Error r = Some e" "IsRetriableDbError (Some e)"
    using retriable by blast
  obtain s' where fn: "fn s = (Some r, s')" using r(1) by (cases "fn s") simp
  have s': "snd (fn s) = s'" by (simp add: fn)
  have w: "int_wrap (K + 1) = K + 1" using K by (intro int_wrap_id) simp_all
  have "DbFnWithRetry_loop K fn K r0 s = DbFnWithRetry_loop K fn (K + 1) (Some r) s'"
    by (subst DbFnWithRetry_loop.simps) (simp add: fn r w)
  also have "\<dots> = Some (r\<lparr>DB_Error := Some (errorString
                   (''max allowed retries exceeded '' @ showInt (K + 1) @ ''/'' @ showInt K
                    @ '': '' @ Error e))\<rparr>, s')"
    using K by (subst DbFnWithRetry_loop.simps) (simp add: r showError_def)
  finally show ?case using r a s' by simp
next
  case (Suc n)
  then have a: "a < K" "0 \<le> a + 1" "a + 1 \<le> K" "nat (K - (a + 1)) = n" by simp_all
  obtain r e where r: "fst (fn s) = Some r" "DB_Error r = Some e" "IsRetriableDbError (Some e)"
    using retriable by blast
  obtain s' where fn: "fn s = (Some r, s')" using r(1) by (cases "fn s") simp
  have s': "snd (fn s) = s'" by (simp add: fn)
  have w: "int_wrap (a + 1) = a + 1" using K a Suc.prems by (intro int_wrap_id) simp_all
  have step: "DbFnWithRetry_loop K fn a r0 s = DbFnWithRetry_loop K fn (a + 1) (Some r) s'"
    using a by (subst DbFnWithRetry_loop.simps) (simp add: fn r w)
  have f: "(g ^^ Suc m) s = (g ^^ m) (g s)" for g :: "'a \<Rightarrow> 'a" and m
    by (simp add: funpow_swap1)
  have f1: "((\<lambda>s. snd (fn s)) ^^ Suc n) s = ((\<lambda>s. snd (fn s)) ^^ n) s'"
    using f [where g = "\<lambda>s. snd (fn s)" and m = n] by (simp only: s')
  have f2: "((\<lambda>s. snd (fn s)) ^^ Suc (Suc n)) s = ((\<lambda>s. snd (fn s)) ^^ Suc n) s'"
    using f [where g = "\<lambda>s. snd (fn s)" and m = "Suc n"] by (simp only: s')
  from Suc.IH [OF a(2) a(3) a(4), of s' "Some r"]
  show ?case unfolding step f1 f2 .
qed

lemma counted_funpow:
  "((\<lambda>s. snd (counted fn s)) ^^ n) (c, s) = (c + n, ((\<lambda>s. snd (fn s)) ^^ n) s)"
  by (induction n) (simp_all add: counted_def split: prod.splits)

lemma fst_counted: "fst (counted fn (c, s)) = fst (fn s)"
  by (simp add: counted_def split: prod.splits)

text \<open>
  Below the largest \<open>int\<close> the cap works as its comments say. With a retry limit \<open>K\<close>,
  \<open>0 < K < 2^63 - 1\<close>, and a unit of work whose every call returns a retriable error,
  \<open>DbFnWithRetry\<close> returns after exactly \<open>K + 1\<close> calls (the counter of \<open>counted\<close>),
  and the error of its result is "max allowed retries exceeded", the number of
  attempts \<open>K + 1\<close>, the limit \<open>K\<close> and the message of the error of the last call.
\<close>

theorem DbFnWithRetry_retry_cap:
  assumes "0 < K" "K < 2 ^ 63 - 1"
    and "\<forall>s. \<exists>r e. fst (fn s) = Some r \<and> DB_Error r = Some e \<and> IsRetriableDbError (Some e)"
  shows "\<exists>r e s'. DbFnWithRetry K (counted fn) (0, s) =
           Some (r\<lparr>DB_Error := Some (errorString
                   (''max allowed retries exceeded '' @ showInt (K + 1) @ ''/'' @ showInt K
                    @ '': '' @ Error e))\<rparr>,
                 (nat K + 1, s'))
         \<and> fst (fn (((\<lambda>s. snd (fn s)) ^^ nat K) s)) = Some r
         \<and> DB_Error r = Some e \<and> IsRetriableDbError (Some e)"
proof -
  have c: "\<forall>s. \<exists>r e. fst (counted fn s) = Some r \<and> DB_Error r = Some e \<and> IsRetriableDbError (Some e)"
  proof
    fix cs :: "nat \<times> 'a"
    obtain r e where "fst (fn (snd cs)) = Some r" "DB_Error r = Some e" "IsRetriableDbError (Some e)"
      using assms(3) by blast
    then show "\<exists>r e. fst (counted fn cs) = Some r \<and> DB_Error r = Some e \<and> IsRetriableDbError (Some e)"
      using fst_counted [of fn "fst cs" "snd cs"] by auto
  qed
  have n: "(0::int) \<le> 0" "0 \<le> K" "nat (K - 0) = nat K" using assms(1) by simp_all
  from DbFnWithRetry_loop_exhaust [OF assms(1,2) c n, of "(0, s)" None]
  obtain r e where r: "fst (counted fn (((\<lambda>s. snd (counted fn s)) ^^ nat K) (0, s))) = Some r"
      "DB_Error r = Some e" "IsRetriableDbError (Some e)"
    and run: "DbFnWithRetry_loop K (counted fn) 0 None (0, s) =
           Some (r\<lparr>DB_Error := Some (errorString
                   (''max allowed retries exceeded '' @ showInt (K + 1) @ ''/'' @ showInt K
                    @ '': '' @ Error e))\<rparr>,
                 ((\<lambda>s. snd (counted fn s)) ^^ Suc (nat K)) (0, s))"
    by blast
  have "fst (fn (((\<lambda>s. snd (fn s)) ^^ nat K) s)) = Some r"
    using r(1) unfolding counted_funpow fst_counted .
  moreover have "DbFnWithRetry K (counted fn) (0, s) =
           Some (r\<lparr>DB_Error := Some (errorString
                   (''max allowed retries exceeded '' @ showInt (K + 1) @ ''/'' @ showInt K
                    @ '': '' @ Error e))\<rparr>,
                 (nat K + 1, ((\<lambda>s. snd (fn s)) ^^ Suc (nat K)) s))"
    using run unfolding counted_funpow DbFnWithRetry_def by simp
  ultimately show ?thesis using r(2,3) by blast
qed

lemma DbFnWithRetry_loop_never:
  "DbFnWithRetry_loop K fn a r0 s = Some y \<Longrightarrow>
   K = 2 ^ 63 - 1 \<longrightarrow>
   (\<forall>s. \<exists>r e. fst (fn s) = Some r \<and> DB_Error r = Some e \<and> IsRetriableDbError (Some e)) \<longrightarrow>
   - (2 ^ 63) \<le> a \<longrightarrow> a < 2 ^ 63 \<longrightarrow> False"
proof (induction K fn a r0 s y rule: DbFnWithRetry_loop.raw_induct [rotated 1, consumes 1, case_names body])
  case (body loop K fn a r0 s y)
  note IH = body(1) and body = body(2)
  show ?case
  proof (intro impI)
    assume K: "K = 2 ^ 63 - 1"
      and retriable: "\<forall>s. \<exists>r e. fst (fn s) = Some r \<and> DB_Error r = Some e \<and> IsRetriableDbError (Some e)"
      and lo: "- (2 ^ 63) \<le> a" and hi: "a < 2 ^ 63"
    obtain r e where r: "fst (fn s) = Some r" "DB_Error r = Some e" "IsRetriableDbError (Some e)"
      using retriable by blast
    obtain s' where fn: "fn s = (Some r, s')" using r(1) by (cases "fn s") simp
    have "\<not> a > K" using K hi by simp
    then have "loop K fn (int_wrap (a + 1)) (Some r) s' = Some y"
      using body by (simp add: fn r)
    moreover have "- (2 ^ 63) \<le> int_wrap (a + 1)" "int_wrap (a + 1) < 2 ^ 63"
      by (simp_all add: int_wrap_def)
    ultimately show False using IH K retriable by blast
  qed
qed

lemma always_not_committed_retriable:
  "\<forall>s. \<exists>r e. fst (counted always_not_committed s) = Some r \<and> DB_Error r = Some e \<and> IsRetriableDbError (Some e)"
  by (simp add: counted_def always_not_committed_def IsRetriableDbError_def FdbErrNotCommitted_def
      HasPrefix_def split: prod.splits)

lemma DbFnWithRetry_loop_diverges:
  assumes "DbFnWithRetry_loop K fn a r0 s = Some y" and "K = 2 ^ 63 - 1"
    and "\<forall>s. \<exists>r e. fst (fn s) = Some r \<and> DB_Error r = Some e \<and> IsRetriableDbError (Some e)"
    and "- (2 ^ 63) \<le> a" and "a < 2 ^ 63"
  shows False
proof -
  note n = DbFnWithRetry_loop_never [OF assms(1)]
  from n [THEN mp, OF assms(2), THEN mp, OF assms(3), THEN mp, OF assms(4), THEN mp, OF assms(5)]
  show False .
qed

text \<open>
  Claim C2. \<open>FdbRetryLimit\<close> is, in the words of its comment, the maximum number of
  retries that will be attempted, and the loop checks whether the allowed retries are
  exhausted: with a limit \<open>K > 0\<close> a unit of work that always fails with a retriable
  error is to be called \<open>K + 1\<close> times and the fatal error returned. With the largest
  \<open>int\<close> as the limit the code does not do so: \<open>attemptNumber > FdbRetryLimit\<close> never
  holds, the counter wraps around and the loop never returns. (With an \<open>int\<close> of 32
  bits the same happens at the limit \<open>2^31 - 1\<close>.)
\<close>

theorem DbFnWithRetry_largest_limit_never_returns:
  "DbFnWithRetry (2 ^ 63 - 1) (counted always_not_committed) (0, ()) = None"
proof (cases "DbFnWithRetry (2 ^ 63 - 1) (counted always_not_committed) (0, ())")
  case None
  then show ?thesis .
next
  case (Some y)
  then have run: "DbFnWithRetry_loop (2 ^ 63 - 1) (counted always_not_committed) 0 None (0, ()) = Some y"
    by (simp only: DbFnWithRetry_def)
  have lo: "- (2 ^ 63) \<le> (0::int)" and hi: "(0::int) < 2 ^ 63" by simp_all
  have False
    by (rule DbFnWithRetry_loop_diverges [OF run refl always_not_committed_retriable lo hi])
  then show ?thesis ..
qed

text \<open>Three retries allowed: four calls, then the fatal error.\<close>

theorem DbFnWithRetry_retry_cap_witness:
  "DbFnWithRetry 3 (counted always_not_committed) (0, ()) =
     Some (\<lparr>DB_Error = Some (errorString ''max allowed retries exceeded 4/3: 1020 - not_committed''),
            RowsAffected = 0\<rparr>, (4, ()))"
  using DbFnWithRetry_retry_cap [of 3 always_not_committed "()"]
  by (auto simp: always_not_committed_def IsRetriableDbError_def FdbErrNotCommitted_def
      HasPrefix_def showInt_def showNat.simps digit_def)

section \<open>Properties of the driver\<close>

lemma HasPrefix_prefix: "HasPrefix s p \<longleftrightarrow> prefix p s"
proof
  assume "HasPrefix s p"
  then have "s = p @ drop (length p) s"
    by (metis HasPrefix_def append_take_drop_id)
  then show "prefix p s" by (metis prefixI)
next
  assume "prefix p s"
  then show "HasPrefix s p" by (auto simp: HasPrefix_def prefix_def)
qed

lemma HasSuffix_suffix: "HasSuffix s p \<longleftrightarrow> suffix p s"
proof
  assume "HasSuffix s p"
  then have "s = take (length s - length p) s @ p"
    by (metis HasSuffix_def append_take_drop_id)
  then show "suffix p s" by (metis suffixI)
next
  assume "suffix p s"
  then show "HasSuffix s p" by (auto simp: HasSuffix_def suffix_def)
qed

lemma db_failure_no_connection:
  "db env driver w = (Inl err, driver', w') \<Longrightarrow> currentDb driver' = None"
  by (auto simp: db_def Let_def split: option.splits prod.splits sum.splits)

text \<open>
  Claim C1. An error is a connection error exactly when its message starts with
  \<open>"dial tcp "\<close> and ends with \<open>": connection refused"\<close>; the refused dial of the
  specification is one and the missing role is not. Whenever \<open>withDb\<close> returns a
  connection error, the driver it leaves has no live connection; when the error comes
  from the unit of work, that is the driver after \<open>reset\<close>, and the error is returned
  as it is.
\<close>

theorem withDb_connection_error:
  "(isConnectionError err \<longleftrightarrow>
      prefix ''dial tcp '' (Error err) \<and> suffix '': connection refused'' (Error err))
   \<and> isConnectionError (errorString ''dial tcp 10.0.0.1:5432: connection refused'')
   \<and> \<not> isConnectionError (errorString ''role \"x\" does not exist'')
   \<and> (\<forall>e driver' l' w'. withDb env fn driver l w = (Some e, driver', l', w') \<longrightarrow>
         isConnectionError e \<longrightarrow> currentDb driver' = None)
   \<and> (\<forall>h d1 w1 e l' w2. db env driver w = (Inr h, d1, w1) \<longrightarrow> fn h l w1 = (Some e, l', w2) \<longrightarrow>
         isConnectionError e \<longrightarrow> withDb env fn driver l w = (Some e, reset d1, l', w2))"
proof (intro conjI allI impI)
  show "isConnectionError err \<longleftrightarrow>
      prefix ''dial tcp '' (Error err) \<and> suffix '': connection refused'' (Error err)"
    by (simp only: isConnectionError_def HasPrefix_prefix HasSuffix_suffix if_bool_eq_conj) simp
  show "isConnectionError (errorString ''dial tcp 10.0.0.1:5432: connection refused'')"
    by (simp add: isConnectionError_def HasPrefix_def HasSuffix_def)
  show "\<not> isConnectionError (errorString ''role \"x\" does not exist'')"
    by (simp add: isConnectionError_def HasPrefix_def HasSuffix_def)
next
  fix e driver' l' w'
  assume run: "withDb env fn driver l w = (Some e, driver', l', w')" and ce: "isConnectionError e"
  obtain r d1 w1 where acq: "db env driver w = (r, d1, w1)" by (cases "db env driver w") auto
  show "currentDb driver' = None"
  proof (cases r)
    case (Inl err)
    then have "driver' = d1" using run acq by (simp add: withDb_def)
    then show ?thesis
      using db_failure_no_connection [of env driver w err d1 w1] acq Inl by simp
  next
    case (Inr h)
    obtain oe l1 w2 where fn: "fn h l w1 = (oe, l1, w2)" by (cases "fn h l w1") auto
    show ?thesis
    proof (cases oe)
      case None
      then show ?thesis using run acq Inr fn by (simp add: withDb_def)
    next
      case (Some e')
      then have "e' = e" using run acq Inr fn by (simp add: withDb_def split: if_splits)
      then have "driver' = reset d1" using run acq Inr fn Some ce by (simp add: withDb_def)
      then show ?thesis by (simp add: reset_def)
    qed
  qed
next
  fix h d1 w1 e l' w2
  assume "db env driver w = (Inr h, d1, w1)" "fn h l w1 = (Some e, l', w2)" "isConnectionError e"
  then show "withDb env fn driver l w = (Some e, reset d1, l', w2)"
    by (simp add: withDb_def)
qed

lemma demo_db: "db demo_backend demo_driver [] =
   (Inr 7, \<lparr>driverName = ''postgres'',
            connectionStrings = \<lparr>ring_cells = [''alpha'', ''down'', ''gamma''], ring_pos = 1\<rparr>,
            currentDb = Some 7\<rparr>, [''connect alpha''])"
  by (simp add: db_def demo_backend_def demo_driver_def ring_Value_def ring_Next_def)

text \<open>
  A unit of work that fails with the refused dial on the example driver: the connection
  made for it is dropped.
\<close>

theorem withDb_connection_error_witness:
  "withDb demo_backend
     (\<lambda>h l w. (Some (errorString ''dial tcp 10.0.0.1:5432: connection refused''), l, w @ [''query'']))
     demo_driver () [] =
   (Some (errorString ''dial tcp 10.0.0.1:5432: connection refused''),
    \<lparr>driverName = ''postgres'',
     connectionStrings = \<lparr>ring_cells = [''alpha'', ''down'', ''gamma''], ring_pos = 1\<rparr>,
     currentDb = None\<rparr>, (), [''connect alpha'', ''query''])"
  using withDb_connection_error [of "errorString ''dial tcp 10.0.0.1:5432: connection refused''"
      demo_backend
      "\<lambda>h l w. (Some (errorString ''dial tcp 10.0.0.1:5432: connection refused''), l, w @ [''query''])"
      demo_driver "()" "[]"]
  by (simp add: demo_db reset_def isConnectionError_def HasPrefix_def HasSuffix_def)

text \<open>
  Claim C4. \<open>DeleteMultiple\<close> with one argument whose kind is a slice returns the
  usage error, whatever the slice holds; the driver and the world are those of before
  the call: no connection is acquired, the backend is not called, nothing is retried.
\<close>

theorem DeleteMultiple_slice_argument:
  "ValueOf_Kind v = reflect_Slice \<Longrightarrow>
   DeleteMultiple env [v] driver w =
     (Some (errorString
        ''gorm driver: dlm- invalid arguments to DeleteMultiple; did you forget the `...`?''),
      driver, w)"
  by (simp add: DeleteMultiple_def)

text \<open>
  A slice of two record pointers passed as the only argument.
\<close>

theorem DeleteMultiple_slice_argument_witness:
  "DeleteMultiple demo_backend [ISlice [IPtr (IStruct ()), IPtr (IStruct ())]] demo_driver [] =
     (Some (errorString
        ''gorm driver: dlm- invalid arguments to DeleteMultiple; did you forget the `...`?''),
      demo_driver, [])"
  using DeleteMultiple_slice_argument [of "ISlice [IPtr (IStruct ()), IPtr (IStruct ())]" demo_backend demo_driver "[]"]
  by simp

text \<open>
  Claim C10. \<open>SaveMultiple\<close> and \<open>DeleteMultiple\<close> with no argument return nil and leave
  the driver (its connection and its ring) and the world as they were.
\<close>

theorem Multiple_no_arguments:
  "SaveMultiple env [] driver w = (None, driver, w)
   \<and> DeleteMultiple env [] driver w = (None, driver, w)"
  by (simp add: SaveMultiple_def DeleteMultiple_def)

text \<open>
  Claim C9. When the lookup of \<open>GetOrCreate\<close> answers \<open>gorm.ErrRecordNotFound\<close> and
  the create that follows fails, \<open>GetOrCreate\<close> returns \<open>created = true\<close> together with
  the error of the create under the tag \<open>goc\<close>.
\<close>

theorem GetOrCreate_created_on_failed_create:
  assumes "db env driver w = (Inr h, d1, w1)"
    and "gorm_First env h v w1 = (Some ErrRecordNotFound, w2)"
    and "gorm_Create env h v w2 = (Some e, w3)"
  shows "GetOrCreate env v driver w =
           ((True, Some (errorString (''gorm driver: goc- '' @ Error e))),
            (if isConnectionError e then reset d1 else d1), w3)"
  using assms by (simp add: GetOrCreate_def withDb_def)

text \<open>
  On the example backend no record is found and creating \<open>IString s\<close> fails.
\<close>

theorem GetOrCreate_created_on_failed_create_witness:
  "GetOrCreate demo_backend (IString ''duplicate key'') demo_driver [] =
     ((True, Some (errorString ''gorm driver: goc- duplicate key'')),
      \<lparr>driverName = ''postgres'',
       connectionStrings = \<lparr>ring_cells = [''alpha'', ''down'', ''gamma''], ring_pos = 1\<rparr>,
       currentDb = Some 7\<rparr>, [''connect alpha'', ''first'', ''create''])"
  using GetOrCreate_created_on_failed_create [of demo_backend demo_driver "[]" 7 _ "[''connect alpha'']"
      "IString ''duplicate key''" "[''connect alpha'', ''first'']" "errorString ''duplicate key''"
      "[''connect alpha'', ''first'', ''create'']"]
  by (simp add: demo_db) (simp add: demo_backend_def isConnectionError_def HasPrefix_def)

text \<open>Both operations with no argument on the example driver: no call is logged.\<close>

theorem Multiple_no_arguments_witness:
  "SaveMultiple demo_backend [] demo_driver [] = (None, demo_driver, [])
   \<and> DeleteMultiple demo_backend [] demo_driver [] = (None, demo_driver, [])"
  using Multiple_no_arguments [of demo_backend demo_driver "[]"] by simp

lemma Merge_pair_Some: "\<exists>m. Merge [Some e, r] = Some m"
  by (cases r) (simp_all add: Merge_def)

lemma UpdateSingle_run:
  assumes "db env driver w = (Inr h, d1, w1)"
    and "gorm_Begin env h w1 = ((tx, None), w2)"
    and "gorm_UpdateColumns env tx v vs w2 = ((uerr, n), w3)"
  shows "(n \<noteq> 1 \<longrightarrow>
            (\<exists>err d'. UpdateSingle env v vs driver w
                        = (Some err, d', snd (gorm_Rollback env tx w3))))
         \<and> (fst (UpdateSingle env v vs driver w) = None \<longrightarrow> uerr = None \<and> n = 1)
         \<and> (uerr = None \<and> n = 1 \<and> fst (gorm_Commit env tx w3) = None \<longrightarrow>
              UpdateSingle env v vs driver w = (None, d1, snd (gorm_Commit env tx w3)))
         \<and> (fst (UpdateSingle env v vs driver w) = None \<longrightarrow> fst (gorm_Commit env tx w3) = None)"
proof -
  define fail where "fail = (case uerr of
      Some err \<Rightarrow> err
    | None \<Rightarrow> errorString
        (''gorm driver: upd1- 1 row should have been affected but instead ''
         @ showInt n @ '' rows were affected''))"
  obtain rerr w4 where rb: "gorm_Rollback env tx w3 = (rerr, w4)"
    by (cases "gorm_Rollback env tx w3") auto
  obtain m where m: "Merge [Some fail, rerr] = Some m"
    using Merge_pair_Some by blast
  have failing: "uerr \<noteq> None \<or> n \<noteq> 1 \<Longrightarrow>
      UpdateSingle env v vs driver w = (Some m, (if isConnectionError m then reset d1 else d1), w4)"
    using assms rb m
    by (cases uerr) (auto simp: UpdateSingle_def inTransaction_def withDb_def fail_def)
  obtain cerr w5 where cm: "gorm_Commit env tx w3 = (cerr, w5)"
    by (cases "gorm_Commit env tx w3") auto
  have ok: "uerr = None \<Longrightarrow> n = 1 \<Longrightarrow> cerr = None \<Longrightarrow>
      UpdateSingle env v vs driver w = (None, d1, w5)"
    using assms cm by (simp add: UpdateSingle_def inTransaction_def withDb_def)
  have c1: "n \<noteq> 1 \<longrightarrow>
      (\<exists>err d'. UpdateSingle env v vs driver w = (Some err, d', snd (gorm_Rollback env tx w3)))"
    using failing rb by simp
  have c2: "fst (UpdateSingle env v vs driver w) = None \<longrightarrow> uerr = None \<and> n = 1"
  proof (rule impI, rule ccontr)
    assume s: "fst (UpdateSingle env v vs driver w) = None" and "\<not> (uerr = None \<and> n = 1)"
    then have "uerr \<noteq> None \<or> n \<noteq> 1" by simp
    from failing [OF this] s show False by simp
  qed
  have c3: "uerr = None \<and> n = 1 \<and> fst (gorm_Commit env tx w3) = None \<longrightarrow>
      UpdateSingle env v vs driver w = (None, d1, snd (gorm_Commit env tx w3))"
    using ok cm by simp
  have c4: "fst (UpdateSingle env v vs driver w) = None \<longrightarrow> fst (gorm_Commit env tx w3) = None"
  proof (rule impI, rule ccontr)
    assume s: "fst (UpdateSingle env v vs driver w) = None" and "fst (gorm_Commit env tx w3) \<noteq> None"
    then obtain ce where ce: "cerr = Some ce" using cm by auto
    obtain rerr' w6 where rb': "gorm_Rollback env tx w5 = (rerr', w6)"
      by (cases "gorm_Rollback env tx w5") auto
    obtain m' where m': "Merge [Some ce, rerr'] = Some m'"
      using Merge_pair_Some by blast
    have "uerr = None" "n = 1" using c2 s by simp_all
    then have "fst (UpdateSingle env v vs driver w) = Some m'"
      using assms cm ce rb' m' by (simp add: UpdateSingle_def inTransaction_def withDb_def)
    then show False using s by simp
  qed
  from c1 c2 c3 c4 show ?thesis by (intro conjI)
qed


lemma UpdateSingle_success_ran:
  assumes "fst (UpdateSingle env v vs driver w) = None"
  shows "\<exists>h d1 w1 tx w2. db env driver w = (Inr h, d1, w1) \<and> gorm_Begin env h w1 = ((tx, None), w2)"
proof -
  obtain r d1 w1 where acq: "db env driver w = (r, d1, w1)" by (cases "db env driver w") auto
  show ?thesis
  proof (cases r)
    case (Inl err)
    then show ?thesis using assms acq by (simp add: UpdateSingle_def inTransaction_def withDb_def)
  next
    case (Inr h)
    obtain tx be w2 where beg: "gorm_Begin env h w1 = ((tx, be), w2)"
      by (cases "gorm_Begin env h w1") auto
    show ?thesis
    proof (cases be)
      case None
      then show ?thesis using acq Inr beg by simp
    next
      case (Some e)
      obtain rerr w3 where rb: "gorm_Rollback env tx w2 = (rerr, w3)"
        by (cases "gorm_Rollback env tx w2") auto
      obtain m where m: "Merge [Some e, rerr] = Some m" using Merge_pair_Some by blast
      have "fst (UpdateSingle env v vs driver w) = Some m"
        using acq Inr beg Some rb m by (simp add: UpdateSingle_def inTransaction_def withDb_def)
      then show ?thesis using assms by simp
    qed
  qed
qed

text \<open>
  Claim C7. Once the connection is acquired and the transaction begun, let the column
  update report \<open>n\<close> rows affected. If \<open>n\<close> is not one, \<open>UpdateSingle\<close> returns an
  error and the world it leaves is the one after \<open>Rollback\<close> on the transaction; if the
  update has no error, \<open>n\<close> is one and the commit succeeds, it returns nil. And
  \<open>UpdateSingle\<close> returns nil only when it did acquire a connection and begin a
  transaction in which the update had no error and affected exactly one row, and the
  commit succeeded.
\<close>

theorem UpdateSingle_exactly_one_row:
  "(\<forall>h d1 w1 tx w2 uerr n w3.
       db env driver w = (Inr h, d1, w1) \<longrightarrow> gorm_Begin env h w1 = ((tx, None), w2) \<longrightarrow>
       gorm_UpdateColumns env tx v vs w2 = ((uerr, n), w3) \<longrightarrow>
         (n \<noteq> 1 \<longrightarrow>
            (\<exists>err d'. UpdateSingle env v vs driver w
                        = (Some err, d', snd (gorm_Rollback env tx w3))))
         \<and> (uerr = None \<and> n = 1 \<and> fst (gorm_Commit env tx w3) = None \<longrightarrow>
              UpdateSingle env v vs driver w = (None, d1, snd (gorm_Commit env tx w3))))
   \<and> (fst (UpdateSingle env v vs driver w) = None \<longrightarrow>
        (\<exists>h d1 w1 tx w2 w3.
           db env driver w = (Inr h, d1, w1) \<and> gorm_Begin env h w1 = ((tx, None), w2)
           \<and> gorm_UpdateColumns env tx v vs w2 = ((None, 1), w3)
           \<and> fst (gorm_Commit env tx w3) = None))"
proof (intro conjI allI impI)
  fix h d1 w1 tx w2 uerr n w3
  assume a: "db env driver w = (Inr h, d1, w1)" "gorm_Begin env h w1 = ((tx, None), w2)"
    "gorm_UpdateColumns env tx v vs w2 = ((uerr, n), w3)"
  note r = UpdateSingle_run [OF a]
  show "\<exists>err d'. UpdateSingle env v vs driver w = (Some err, d', snd (gorm_Rollback env tx w3))"
    if "n \<noteq> 1" using r that by blast
  show "UpdateSingle env v vs driver w = (None, d1, snd (gorm_Commit env tx w3))"
    if "uerr = None \<and> n = 1 \<and> fst (gorm_Commit env tx w3) = None" using r that by blast
next
  assume s: "fst (UpdateSingle env v vs driver w) = None"
  from UpdateSingle_success_ran [OF s]
  obtain h d1 w1 tx w2 where a: "db env driver w = (Inr h, d1, w1)"
      "gorm_Begin env h w1 = ((tx, None), w2)"
    by blast
  obtain uerr n w3 where u: "gorm_UpdateColumns env tx v vs w2 = ((uerr, n), w3)"
    by (cases "gorm_UpdateColumns env tx v vs w2") auto
  from UpdateSingle_run [OF a u] s
  have "uerr = None" "n = 1" "fst (gorm_Commit env tx w3) = None" by simp_all
  then show "\<exists>h d1 w1 tx w2 w3.
           db env driver w = (Inr h, d1, w1) \<and> gorm_Begin env h w1 = ((tx, None), w2)
           \<and> gorm_UpdateColumns env tx v vs w2 = ((None, 1), w3)
           \<and> fst (gorm_Commit env tx w3) = None"
    using a u by blast
qed

lemma demo_begin:
  "gorm_Begin demo_backend 7 [''connect alpha''] = ((8, None), [''connect alpha'', ''begin''])"
  by (simp add: demo_backend_def)

lemma demo_update:
  "gorm_UpdateColumns demo_backend 8 x (IInt n) [''connect alpha'', ''begin'']
     = ((None, n), [''connect alpha'', ''begin'', ''update''])"
  by (simp add: demo_backend_def)

text \<open>
  On the example backend an update with the values \<open>IInt n\<close> affects \<open>n\<close> rows: two
  rows and no row end with an error and a rollback, one row with a commit.
\<close>

theorem UpdateSingle_exactly_one_row_witness:
  "(\<exists>err d'. UpdateSingle demo_backend (IPtr (IStruct ())) (IInt 2) demo_driver []
      = (Some err, d', [''connect alpha'', ''begin'', ''update'', ''rollback'']))
   \<and> (\<exists>err d'. UpdateSingle demo_backend (IPtr (IStruct ())) (IInt 0) demo_driver []
      = (Some err, d', [''connect alpha'', ''begin'', ''update'', ''rollback'']))
   \<and> UpdateSingle demo_backend (IPtr (IStruct ())) (IInt 1) demo_driver []
      = (None,
         \<lparr>driverName = ''postgres'',
          connectionStrings = \<lparr>ring_cells = [''alpha'', ''down'', ''gamma''], ring_pos = 1\<rparr>,
          currentDb = Some 7\<rparr>,
         [''connect alpha'', ''begin'', ''update'', ''commit''])"
proof -
  have rb: "snd (gorm_Rollback demo_backend 8 [''connect alpha'', ''begin'', ''update''])
            = [''connect alpha'', ''begin'', ''update'', ''rollback'']"
    and cm: "gorm_Commit demo_backend 8 [''connect alpha'', ''begin'', ''update'']
            = (None, [''connect alpha'', ''begin'', ''update'', ''commit''])"
    by (simp_all add: demo_backend_def)
  note t = UpdateSingle_exactly_one_row [THEN conjunct1, rule_format, OF demo_db demo_begin]
  have "2 \<noteq> (1::int)" "0 \<noteq> (1::int)" by simp_all
  then show ?thesis
    using t [OF demo_update [of "IPtr (IStruct ())" 2], THEN conjunct1]
      t [OF demo_update [of "IPtr (IStruct ())" 0], THEN conjunct1]
      t [OF demo_update [of "IPtr (IStruct ())" 1], THEN conjunct2]
    by (simp add: rb cm)
qed

lemma fold_ring_cells:
  "length front + length todo = n \<Longrightarrow>
   fold (\<lambda>connectionString r. ring_Next (ring_set_Value r connectionString)) todo
     \<lparr>ring_cells = front @ replicate (length todo) [], ring_pos = length front mod n\<rparr>
   = \<lparr>ring_cells = front @ todo, ring_pos = (length front + length todo) mod n\<rparr>"
proof (induction todo arbitrary: front)
  case Nil
  then show ?case by simp
next
  case (Cons x xs)
  have lt: "length front < n" using Cons.prems by simp
  have "ring_Next (ring_set_Value
          \<lparr>ring_cells = front @ replicate (length (x # xs)) [], ring_pos = length front mod n\<rparr> x)
        = \<lparr>ring_cells = (front @ [x]) @ replicate (length xs) [],
           ring_pos = length (front @ [x]) mod n\<rparr>"
    using lt Cons.prems by (simp add: ring_Next_def ring_set_Value_def)
  moreover have "length (front @ [x]) + length xs = n" using Cons.prems by simp
  ultimately show ?case using Cons.IH [of "front @ [x]"] by simp
qed

lemma NewGormRepositoryDriver_ring:
  assumes "NewGormRepositoryDriver name strs = Some d0"
  shows "d0 = \<lparr>driverName = name, connectionStrings = \<lparr>ring_cells = strs, ring_pos = 0\<rparr>,
               currentDb = None\<rparr>" and "strs \<noteq> []"
proof -
  show ne: "strs \<noteq> []" using assms by (auto simp: NewGormRepositoryDriver_def)
  have "fold (\<lambda>connectionString r. ring_Next (ring_set_Value r connectionString)) strs
          (ring_New (length strs)) = \<lparr>ring_cells = strs, ring_pos = 0\<rparr>"
    using fold_ring_cells [of "[]" strs "length strs"] by (simp add: ring_New_def)
  then show "d0 = \<lparr>driverName = name, connectionStrings = \<lparr>ring_cells = strs, ring_pos = 0\<rparr>,
               currentDb = None\<rparr>"
    using assms ne by (simp add: NewGormRepositoryDriver_def)
qed

lemma reconnects_recording:
  "connectionStrings d = \<lparr>ring_cells = strs, ring_pos = p\<rparr> \<Longrightarrow> p < length strs \<Longrightarrow>
   snd (reconnects (recording outcome) k d w)
     = w @ map (\<lambda>i. strs ! ((p + i) mod length strs)) [0..<k]"
proof (induction k arbitrary: d w p)
  case 0
  then show ?case by simp
next
  case (Suc k)
  obtain r d' w' where acq: "db (recording outcome) (reset d) w = (r, d', w')"
    by (cases "db (recording outcome) (reset d) w") auto
  have w': "w' = w @ [strs ! p]"
    and d': "connectionStrings d' = \<lparr>ring_cells = strs, ring_pos = (p + 1) mod length strs\<rparr>"
    using acq Suc.prems
    by (auto simp: db_def reset_def recording_def ring_Value_def ring_Next_def Let_def
        split: sum.splits)
  have "map (\<lambda>i. strs ! ((p + i) mod length strs)) [0..<Suc k]
        = strs ! (p mod length strs) # map (\<lambda>i. strs ! (((p + 1) mod length strs + i) mod length strs)) [0..<k]"
    by (simp add: upt_conv_Cons map_Suc_upt [symmetric] mod_simps del: upt_Suc)
  moreover have "(p + 1) mod length strs < length strs"
    using Suc.prems(2) by (intro mod_less_divisor) auto
  ultimately show ?case using Suc.IH [OF d', of w'] acq w' Suc.prems(2)
    by simp
qed


text \<open>
  Claim C6. An acquire that finds no live connection makes one connect attempt, with
  the descriptor under the cursor, and moves the cursor by exactly one cell, cyclically,
  whether the attempt succeeds or fails; the cells do not change. A new driver starts at
  its first descriptor, and \<open>k\<close> acquires in a row, each finding no live connection,
  try the descriptors in their cyclic order, whatever the outcome of each attempt.
\<close>

theorem db_round_robin:
  "(\<forall>r driver' w'. currentDb driver = None \<longrightarrow> db env driver w = (r, driver', w') \<longrightarrow>
      (r, w') = DbConnect env (driverName driver) (ring_Value (connectionStrings driver)) w
      \<and> connectionStrings driver' = ring_Next (connectionStrings driver)
      \<and> ring_pos (connectionStrings driver')
          = (ring_pos (connectionStrings driver) + 1) mod length (ring_cells (connectionStrings driver))
      \<and> ring_cells (connectionStrings driver') = ring_cells (connectionStrings driver)
      \<and> currentDb driver' = (case r of Inl err \<Rightarrow> None | Inr h \<Rightarrow> Some h))
   \<and> (\<forall>d0. NewGormRepositoryDriver name strs = Some d0 \<longrightarrow>
         connectionStrings d0 = \<lparr>ring_cells = strs, ring_pos = 0\<rparr>
         \<and> snd (reconnects (recording outcome) k d0 [])
             = map (\<lambda>i. strs ! (i mod length strs)) [0..<k])"
proof (intro conjI allI impI)
  fix r driver' w'
  assume a: "currentDb driver = None" "db env driver w = (r, driver', w')"
  then show "(r, w') = DbConnect env (driverName driver) (ring_Value (connectionStrings driver)) w"
    by (auto simp: db_def Let_def split: prod.splits sum.splits)
  from a show "connectionStrings driver' = ring_Next (connectionStrings driver)"
    by (auto simp: db_def Let_def split: prod.splits sum.splits)
  then show "ring_pos (connectionStrings driver')
          = (ring_pos (connectionStrings driver) + 1) mod length (ring_cells (connectionStrings driver))"
    and "ring_cells (connectionStrings driver') = ring_cells (connectionStrings driver)"
    by (simp_all add: ring_Next_def)
  from a show "currentDb driver' = (case r of Inl err \<Rightarrow> None | Inr h \<Rightarrow> Some h)"
    by (auto simp: db_def Let_def split: prod.splits sum.splits)
next
  fix d0 assume n: "NewGormRepositoryDriver name strs = Some d0"
  from NewGormRepositoryDriver_ring [OF n]
  show cs: "connectionStrings d0 = \<lparr>ring_cells = strs, ring_pos = 0\<rparr>" by simp
  have "0 < length strs" using NewGormRepositoryDriver_ring(2) [OF n] by simp
  from reconnects_recording [OF cs this, of outcome k "[]"]
  show "snd (reconnects (recording outcome) k d0 []) = map (\<lambda>i. strs ! (i mod length strs)) [0..<k]"
    by simp
qed

text \<open>
  Three descriptors of which the second refuses: the failed attempt moves the cursor
  from the second cell to the third, and five acquires go round the ring.
\<close>

theorem db_round_robin_witness:
  "db demo_backend (demo_driver\<lparr>connectionStrings := \<lparr>ring_cells = [''alpha'', ''down'', ''gamma''], ring_pos = 1\<rparr>\<rparr>) []
     = (Inl (errorString ''dial tcp 10.0.0.1:5432: connection refused''),
        demo_driver\<lparr>connectionStrings := \<lparr>ring_cells = [''alpha'', ''down'', ''gamma''], ring_pos = 2\<rparr>\<rparr>,
        [''connect down''])
   \<and> NewGormRepositoryDriver ''postgres'' [''alpha'', ''down'', ''gamma'']
       = Some \<lparr>driverName = ''postgres'',
               connectionStrings = \<lparr>ring_cells = [''alpha'', ''down'', ''gamma''], ring_pos = 0\<rparr>,
               currentDb = None\<rparr>
   \<and> snd (reconnects (recording (\<lambda>cs. if cs = ''down'' then Inl (errorString ''refused'') else Inr 7)) 5
            \<lparr>driverName = ''postgres'',
             connectionStrings = \<lparr>ring_cells = [''alpha'', ''down'', ''gamma''], ring_pos = 0\<rparr>,
             currentDb = None\<rparr> [])
       = [''alpha'', ''down'', ''gamma'', ''alpha'', ''down'']"
proof -
  have n: "NewGormRepositoryDriver ''postgres'' [''alpha'', ''down'', ''gamma'']
       = Some \<lparr>driverName = ''postgres'',
               connectionStrings = \<lparr>ring_cells = [''alpha'', ''down'', ''gamma''], ring_pos = 0\<rparr>,
               currentDb = None\<rparr>"
    by (simp add: NewGormRepositoryDriver_def ring_New_def ring_Next_def ring_set_Value_def)
  have d: "db demo_backend (demo_driver\<lparr>connectionStrings := \<lparr>ring_cells = [''alpha'', ''down'', ''gamma''], ring_pos = 1\<rparr>\<rparr>) []
     = (Inl (errorString ''dial tcp 10.0.0.1:5432: connection refused''),
        demo_driver\<lparr>connectionStrings := \<lparr>ring_cells = [''alpha'', ''down'', ''gamma''], ring_pos = 2\<rparr>\<rparr>,
        [''connect down''])"
    by (simp add: db_def demo_backend_def demo_driver_def ring_Value_def ring_Next_def)
  have u: "[0..<5] = [0, 1, 2, 3, 4]" by (simp add: upt_rec)
  from db_round_robin [of "demo_driver\<lparr>connectionStrings := \<lparr>ring_cells = [''alpha'', ''down'', ''gamma''], ring_pos = 1\<rparr>\<rparr>"
        demo_backend "[]" "''postgres''" "[''alpha'', ''down'', ''gamma'']"
        "\<lambda>cs. if cs = ''down'' then Inl (errorString ''refused'') else Inr 7" 5]
  show ?thesis using n d by (simp add: u)
qed

section \<open>Properties of Raw\<close>

lemma convert_all_length: "convert_all conv cs = Inr xs \<Longrightarrow> length xs = length cs"
  by (induction cs arbitrary: xs) (auto split: sum.splits)

lemma Scan_one: "Scan env conv 1 row = Inr xs \<Longrightarrow> \<exists>x. xs = [x]"
proof -
  assume "Scan env conv 1 row = Inr xs"
  then have "length xs = 1"
    using convert_all_length [of conv row xs] by (auto simp: Scan_def split: if_splits)
  then show ?thesis by (cases xs) auto
qed

lemma scan_first_Inr:
  "rows_data rows \<noteq> [] \<Longrightarrow>
   scan_first env conv rows = Inr x \<longleftrightarrow> Scan env conv 1 (hd (rows_data rows)) = Inr [x]"
  using Scan_one [of env conv "hd (rows_data rows)"]
  by (cases "rows_data rows") (auto simp: scan_first_def split: sum.splits)

lemma scan_each_Inr:
  "scan_each env conv x0 data = Inr x \<longleftrightarrow>
     (if data = [] then x = x0
      else (\<forall>row\<in>set data. \<exists>y. Scan env conv 1 row = Inr [y])
           \<and> Scan env conv 1 (last data) = Inr [x])"
proof (induction data arbitrary: x0)
  case Nil
  then show ?case by auto
next
  case (Cons row rest)
  show ?case
  proof (cases "Scan env conv 1 row")
    case (Inl e)
    then show ?thesis by auto
  next
    case (Inr xs)
    then obtain y where "xs = [y]" using Scan_one by blast
    then show ?thesis using Inr Cons.IH [of y] by (cases rest) auto
  qed
qed

lemma scan_each_last:
  "data \<noteq> [] \<Longrightarrow> scan_each env conv x0 data = Inr x \<Longrightarrow>
   (\<forall>row\<in>set data. \<exists>y. Scan env conv 1 row = Inr [y]) \<and> Scan env conv 1 (last data) = Inr [x]"
  using scan_each_Inr [of env conv x0 data x] by simp

lemma scan_each_ok:
  "data \<noteq> [] \<Longrightarrow> \<forall>row\<in>set data. \<exists>y. Scan env conv 1 row = Inr [y] \<Longrightarrow>
   Scan env conv 1 (last data) = Inr [x] \<Longrightarrow> scan_each env conv x0 data = Inr x"
  using scan_each_Inr [of env conv x0 data x] by simp

lemma Raw_run:
  assumes "db env driver w = (Inr h, d1, w1)"
    and "gorm_Raw env h query args w1 = ((res, None), w2)"
    and "gorm_Rows env res w2 = (Inr rows, w3)"
  shows "Raw env result query args driver w =
     (case Raw_switch env res rows result w3 of
        (None, result', w') \<Rightarrow> (None, d1, result', w')
      | (Some err, result', w') \<Rightarrow>
          (Some (errorString (''gorm driver: raw- '' @ Error err)),
           (if isConnectionError err then reset d1 else d1), result', w'))"
  using assms by (simp add: Raw_def withDb_def split: prod.splits option.splits)

text \<open>
  Claim C5. Let the connection be acquired and the query deliver a result set with at
  least one row. \<open>Raw\<close> into an \<open>*int\<close> succeeds exactly when every row scans, and then
  assigns the value of the last row. \<open>Raw\<close> into a \<open>*bool\<close>, an \<open>*int64\<close> or a
  \<open>*string\<close> succeeds exactly when the first row scans, and then assigns the value of
  the first row, whatever the later rows hold.
\<close>

theorem Raw_scalar_first_or_last:
  assumes "db env driver w = (Inr h, d1, w1)"
    and "gorm_Raw env h query args w1 = ((res, None), w2)"
    and "gorm_Rows env res w2 = (Inr rows, w3)"
    and "rows_data rows \<noteq> []"
  shows "(Raw env (PInt a) query args driver w = (None, d', result', w') \<longleftrightarrow>
            (\<exists>x. (\<forall>row\<in>set (rows_data rows). \<exists>y. Scan env (conv_int env) 1 row = Inr [y])
               \<and> Scan env (conv_int env) 1 (last (rows_data rows)) = Inr [x]
               \<and> d' = d1 \<and> result' = PInt x \<and> w' = w3))
       \<and> (Raw env (PBool b) query args driver w = (None, d', result', w') \<longleftrightarrow>
            (\<exists>x. Scan env (conv_bool env) 1 (hd (rows_data rows)) = Inr [x]
               \<and> d' = d1 \<and> result' = PBool x \<and> w' = w3))
       \<and> (Raw env (PInt64 c) query args driver w = (None, d', result', w') \<longleftrightarrow>
            (\<exists>x. Scan env (conv_int64 env) 1 (hd (rows_data rows)) = Inr [x]
               \<and> d' = d1 \<and> result' = PInt64 x \<and> w' = w3))
       \<and> (Raw env (PString s) query args driver w = (None, d', result', w') \<longleftrightarrow>
            (\<exists>x. Scan env (conv_string env) 1 (hd (rows_data rows)) = Inr [x]
               \<and> d' = d1 \<and> result' = PString x \<and> w' = w3))"
proof (intro conjI)
  note run = Raw_run [OF assms(1,2,3)]
  show "Raw env (PInt a) query args driver w = (None, d', result', w') \<longleftrightarrow>
            (\<exists>x. (\<forall>row\<in>set (rows_data rows). \<exists>y. Scan env (conv_int env) 1 row = Inr [y])
               \<and> Scan env (conv_int env) 1 (last (rows_data rows)) = Inr [x]
               \<and> d' = d1 \<and> result' = PInt x \<and> w' = w3)"
  proof
    assume r: "Raw env (PInt a) query args driver w = (None, d', result', w')"
    then obtain x where x: "scan_each env (conv_int env) 0 (rows_data rows) = Inr x"
      by (cases "scan_each env (conv_int env) 0 (rows_data rows)") (simp_all add: run Raw_switch_def)
    then have "d' = d1 \<and> result' = PInt x \<and> w' = w3"
      using r by (simp add: run Raw_switch_def)
    then show "\<exists>x. (\<forall>row\<in>set (rows_data rows). \<exists>y. Scan env (conv_int env) 1 row = Inr [y])
               \<and> Scan env (conv_int env) 1 (last (rows_data rows)) = Inr [x]
               \<and> d' = d1 \<and> result' = PInt x \<and> w' = w3"
      using scan_each_last [OF assms(4) x] by blast
  next
    assume "\<exists>x. (\<forall>row\<in>set (rows_data rows). \<exists>y. Scan env (conv_int env) 1 row = Inr [y])
               \<and> Scan env (conv_int env) 1 (last (rows_data rows)) = Inr [x]
               \<and> d' = d1 \<and> result' = PInt x \<and> w' = w3"
    then obtain x where ok: "\<forall>row\<in>set (rows_data rows). \<exists>y. Scan env (conv_int env) 1 row = Inr [y]"
        "Scan env (conv_int env) 1 (last (rows_data rows)) = Inr [x]"
      and eq: "d' = d1" "result' = PInt x" "w' = w3"
      by blast
    have "scan_each env (conv_int env) 0 (rows_data rows) = Inr x"
      by (rule scan_each_ok [OF assms(4) ok])
    then show "Raw env (PInt a) query args driver w = (None, d', result', w')"
      using eq by (simp add: run Raw_switch_def)
  qed
  show "Raw env (PBool b) query args driver w = (None, d', result', w') \<longleftrightarrow>
            (\<exists>x. Scan env (conv_bool env) 1 (hd (rows_data rows)) = Inr [x]
               \<and> d' = d1 \<and> result' = PBool x \<and> w' = w3)"
    using scan_first_Inr [OF assms(4), of env "conv_bool env"]
    by (cases "scan_first env (conv_bool env) rows") (auto simp: run Raw_switch_def)
  show "Raw env (PInt64 c) query args driver w = (None, d', result', w') \<longleftrightarrow>
            (\<exists>x. Scan env (conv_int64 env) 1 (hd (rows_data rows)) = Inr [x]
               \<and> d' = d1 \<and> result' = PInt64 x \<and> w' = w3)"
    using scan_first_Inr [OF assms(4), of env "conv_int64 env"]
    by (cases "scan_first env (conv_int64 env) rows") (auto simp: run Raw_switch_def)
  show "Raw env (PString s) query args driver w = (None, d', result', w') \<longleftrightarrow>
            (\<exists>x. Scan env (conv_string env) 1 (hd (rows_data rows)) = Inr [x]
               \<and> d' = d1 \<and> result' = PString x \<and> w' = w3)"
    using scan_first_Inr [OF assms(4), of env "conv_string env"]
    by (cases "scan_first env (conv_string env) rows") (auto simp: run Raw_switch_def)
qed

lemma demo_raw_bits:
  "gorm_Raw demo_backend 7 ''bits'' [] [''connect alpha''] = ((100, None), [''connect alpha'', ''raw bits''])"
  by (simp add: demo_backend_def)

lemma demo_rows_bits:
  "gorm_Rows demo_backend 100 [''connect alpha'', ''raw bits'']
     = (Inr \<lparr>rows_Columns = Inr [''bit''], rows_data = [[SqlInt64 1], [SqlInt64 0]]\<rparr>,
        [''connect alpha'', ''raw bits'', ''rows''])"
  by (simp add: demo_backend_def demo_rows_def)

lemma demo_scans:
  "Scan demo_backend (conv_int demo_backend) (Suc 0) [SqlInt64 n] = Inr [n]"
  "Scan demo_backend (conv_int64 demo_backend) (Suc 0) [SqlInt64 n] = Inr [n]"
  "Scan demo_backend (conv_bool demo_backend) (Suc 0) [SqlInt64 1] = Inr [True]"
  "Scan demo_backend (conv_string demo_backend) (Suc 0) [SqlInt64 1] = Inr [''1'']"
  by (simp_all add: Scan_def demo_backend_def demo_conv_int_def demo_conv_bool_def
      demo_conv_string_def showInt_def showNat.simps digit_def)

text \<open>
  The query \<open>bits\<close> of the example backend has the rows 1 and 0: an \<open>*int\<close> receives
  0, the last; an \<open>*int64\<close>, a \<open>*bool\<close> and a \<open>*string\<close> receive the first.
\<close>

theorem Raw_scalar_first_or_last_witness:
  "Raw demo_backend (PInt 7) ''bits'' [] demo_driver []
     = (None, demo_driver\<lparr>connectionStrings := \<lparr>ring_cells = [''alpha'', ''down'', ''gamma''], ring_pos = 1\<rparr>,
                          currentDb := Some 7\<rparr>,
        PInt 0, [''connect alpha'', ''raw bits'', ''rows''])
   \<and> Raw demo_backend (PBool False) ''bits'' [] demo_driver []
     = (None, demo_driver\<lparr>connectionStrings := \<lparr>ring_cells = [''alpha'', ''down'', ''gamma''], ring_pos = 1\<rparr>,
                          currentDb := Some 7\<rparr>,
        PBool True, [''connect alpha'', ''raw bits'', ''rows''])
   \<and> Raw demo_backend (PInt64 7) ''bits'' [] demo_driver []
     = (None, demo_driver\<lparr>connectionStrings := \<lparr>ring_cells = [''alpha'', ''down'', ''gamma''], ring_pos = 1\<rparr>,
                          currentDb := Some 7\<rparr>,
        PInt64 1, [''connect alpha'', ''raw bits'', ''rows''])
   \<and> Raw demo_backend (PString []) ''bits'' [] demo_driver []
     = (None, demo_driver\<lparr>connectionStrings := \<lparr>ring_cells = [''alpha'', ''down'', ''gamma''], ring_pos = 1\<rparr>,
                          currentDb := Some 7\<rparr>,
        PString ''1'', [''connect alpha'', ''raw bits'', ''rows''])"
proof -
  have ne: "rows_data \<lparr>rows_Columns = Inr [''bit''], rows_data = [[SqlInt64 1], [SqlInt64 0]]\<rparr> \<noteq> []"
    by simp
  define d where "d = demo_driver\<lparr>connectionStrings := \<lparr>ring_cells = [''alpha'', ''down'', ''gamma''], ring_pos = 1\<rparr>,
                          currentDb := Some 7\<rparr>"
  note t = Raw_scalar_first_or_last [OF demo_db demo_raw_bits demo_rows_bits ne,
      where a = 7 and b = False and c = 7 and s = "[]" and d' = d
        and w' = "[''connect alpha'', ''raw bits'', ''rows'']"]
  show ?thesis
    using t [where result' = "PInt 0"] t [where result' = "PBool True"]
      t [where result' = "PInt64 1"] t [where result' = "PString ''1''"]
    by (auto simp: demo_scans demo_driver_def d_def)
qed

lemma fold_upd_map_of:
  "fold (\<lambda>(column, v) m. m(column \<mapsto> v)) kvs m = m ++ map_of (rev kvs)"
proof (induction kvs arbitrary: m)
  case Nil
  then show ?case by simp
next
  case (Cons kv kvs)
  obtain k v where kv: "kv = (k, v)" by (cases kv)
  have "fold (\<lambda>(column, v) m. m(column \<mapsto> v)) (kv # kvs) m
        = fold (\<lambda>(column, v) m. m(column \<mapsto> v)) kvs (m(k \<mapsto> v))"
    by (simp only: kv fold_simps comp_apply case_prod_conv)
  also have "\<dots> = m(k \<mapsto> v) ++ map_of (rev kvs)"
    by (rule Cons.IH)
  also have "\<dots> = m ++ (map_of [(k, v)] ++ map_of (rev kvs))"
    by (rule ext) (auto simp: map_add_def split: option.splits)
  also have "\<dots> = m ++ map_of (rev (kv # kvs))"
    by (simp only: kv rev.simps map_of_append)
  finally show ?case .
qed

lemma assign_columns_map_of:
  "assign_columns m columns vals = m ++ map_of (rev (zip columns vals))"
  by (simp add: assign_columns_def fold_upd_map_of)

lemma dom_map_of_rev_zip:
  "length vals = length columns \<Longrightarrow> dom (map_of (rev (zip columns vals))) = set columns"
proof -
  assume len: "length vals = length columns"
  have "dom (map_of (rev (zip columns vals))) = fst ` set (rev (zip columns vals))"
    by (rule dom_map_of_conv_image_fst)
  also have "\<dots> = set (map fst (zip columns vals))"
    by (simp only: set_rev set_map)
  also have "\<dots> = set columns"
    using len by (simp only: map_fst_zip)
  finally show ?thesis .
qed

lemma map_add_overwrite: "dom a \<subseteq> dom b \<Longrightarrow> (m ++ a) ++ b = m ++ b"
  by (rule ext) (auto simp: map_add_def split: option.splits)


lemma Scan_length: "Scan env conv n row = Inr vals \<Longrightarrow> length vals = n"
  using convert_all_length [of conv row vals] by (auto simp: Scan_def split: if_splits)

lemma map_rows_iff:
  "map_rows env conv columns m data = (None, m') \<longleftrightarrow>
     (\<forall>row\<in>set data. \<exists>vals. Scan env conv (length columns) row = Inr vals)
     \<and> (if data = [] then m' = m
         else (\<exists>vals. Scan env conv (length columns) (last data) = Inr vals
                 \<and> m' = m ++ map_of (rev (zip columns vals))))"
proof (induction data arbitrary: m)
  case Nil
  then show ?case by auto
next
  case (Cons row rest)
  show ?case
  proof (cases "Scan env conv (length columns) row")
    case (Inl e)
    then show ?thesis by auto
  next
    case (Inr vals)
    have lv: "length vals = length columns" using Scan_length [OF Inr] .
    have step: "map_rows env conv columns m (row # rest)
        = map_rows env conv columns (m ++ map_of (rev (zip columns vals))) rest"
      using Inr by (simp add: assign_columns_map_of)
    show ?thesis
    proof (cases rest)
      case Nil
      then show ?thesis using Inr step by auto
    next
      case (Cons r rs)
      have over: "(m ++ map_of (rev (zip columns vals))) ++ map_of (rev (zip columns vals'))
          = m ++ map_of (rev (zip columns vals'))"
        if "Scan env conv (length columns) (last rest) = Inr vals'" for vals'
      proof -
        have "length vals' = length columns" using Scan_length [OF that] .
        then show ?thesis
          using lv by (intro map_add_overwrite) (simp add: dom_map_of_rev_zip)
      qed
      have ne: "rest \<noteq> []" "row # rest \<noteq> []" "last (row # rest) = last rest" using Cons by simp_all
      show ?thesis
        unfolding step Cons.IH [of "m ++ map_of (rev (zip columns vals))"]
        using Inr ne over by (auto simp del: last.simps)
    qed
  qed
qed

lemma map_of_rev_zip_nth:
  assumes "length vals = length columns" "distinct columns" "i < length columns"
  shows "map_of (rev (zip columns vals)) (columns ! i) = Some (vals ! i)"
proof -
  have dz: "distinct (map fst (zip columns vals))"
    using assms(1,2) by (simp only: map_fst_zip)
  have "(columns ! i, vals ! i) \<in> set (zip columns vals)"
    using assms(1,3) by (auto simp: set_zip)
  then have "map_of (zip columns vals) (columns ! i) = Some (vals ! i)"
    using dz by (rule map_of_is_SomeI [rotated])
  moreover have "map_of (rev (zip columns vals)) = map_of (zip columns vals)"
    using dz by (intro map_of_inject_set [THEN iffD2]) (simp_all add: distinct_rev rev_map [symmetric])
  ultimately show ?thesis by simp
qed

lemma raw_map_iff:
  "raw_map env conv msg assign rows = (None, r) \<longleftrightarrow>
     (\<exists>m'. r = Some m' \<and> map_after_rows env conv rows assign m')"
proof (cases "rows_Columns rows")
  case (Inl err)
  then show ?thesis by (simp add: raw_map_def map_after_rows_def)
next
  case (Inr columns)
  define m0 where "m0 = (case assign of None \<Rightarrow> Map.empty | Some m \<Rightarrow> m)"
  have facts: "dom (m0 ++ map_of (rev (zip columns vals))) = dom m0 \<union> set columns
      \<and> (distinct columns \<longrightarrow>
           (\<forall>i<length columns. (m0 ++ map_of (rev (zip columns vals))) (columns ! i) = Some (vals ! i)))"
    if "Scan env conv (length columns) row = Inr vals" for row vals
  proof -
    have l: "length vals = length columns" using Scan_length [OF that] .
    have "dom (m0 ++ map_of (rev (zip columns vals))) = dom m0 \<union> set columns"
      by (simp only: dom_map_add dom_map_of_rev_zip [OF l] Un_commute)
    moreover have "distinct columns \<longrightarrow>
           (\<forall>i<length columns. (m0 ++ map_of (rev (zip columns vals))) (columns ! i) = Some (vals ! i))"
      using map_of_rev_zip_nth [OF l] by (simp add: map_add_find_right)
    ultimately show ?thesis by (rule conjI)
  qed
  have eq: "map_rows env conv columns m0 (rows_data rows) = (None, m')
      \<longleftrightarrow> map_after_rows env conv rows assign m'" for m'
  proof (cases "rows_data rows = []")
    case True
    then show ?thesis using Inr by (auto simp: map_rows_iff map_after_rows_def m0_def)
  next
    case False
    show ?thesis
    proof
      assume "map_rows env conv columns m0 (rows_data rows) = (None, m')"
      then have all: "\<forall>row\<in>set (rows_data rows). \<exists>vals. Scan env conv (length columns) row = Inr vals"
        and "\<exists>vals. Scan env conv (length columns) (last (rows_data rows)) = Inr vals
                 \<and> m' = m0 ++ map_of (rev (zip columns vals))"
        unfolding map_rows_iff using False by simp_all
      then obtain vals where sc: "Scan env conv (length columns) (last (rows_data rows)) = Inr vals"
        and m': "m' = m0 ++ map_of (rev (zip columns vals))"
        by blast
      have tail: "\<exists>vals. Scan env conv (length columns) (last (rows_data rows)) = Inr vals
          \<and> m' = m0 ++ map_of (rev (zip columns vals))
          \<and> dom m' = dom m0 \<union> set columns
          \<and> (distinct columns \<longrightarrow> (\<forall>i<length columns. m' (columns ! i) = Some (vals ! i)))"
        using facts [OF sc] sc m' by (intro exI [of _ vals]) simp
      show "map_after_rows env conv rows assign m'"
        unfolding map_after_rows_def m0_def [symmetric]
        using Inr False all tail by simp
    next
      assume "map_after_rows env conv rows assign m'"
      then have "(\<forall>row\<in>set (rows_data rows). \<exists>vals. Scan env conv (length columns) row = Inr vals)
          \<and> (\<exists>vals. Scan env conv (length columns) (last (rows_data rows)) = Inr vals
                 \<and> m' = m0 ++ map_of (rev (zip columns vals)))"
        unfolding map_after_rows_def m0_def [symmetric]
        using Inr False by auto
      then show "map_rows env conv columns m0 (rows_data rows) = (None, m')"
        unfolding map_rows_iff using False by simp
    qed
  qed
  have "raw_map env conv msg assign rows = (None, r) \<longleftrightarrow>
      (\<exists>m'. r = Some m' \<and> map_rows env conv columns m0 (rows_data rows) = (None, m'))"
    using Inr by (auto simp: raw_map_def m0_def split: prod.splits)
  then show ?thesis unfolding eq .
qed

lemma Raw_map_dest:
  assumes run: "\<And>result. Raw env result query args driver w =
     (case Raw_switch env res rows result w3 of
        (None, result', w') \<Rightarrow> (None, d1, result', w')
      | (Some err, result', w') \<Rightarrow>
          (Some (errorString (''gorm driver: raw- '' @ Error err)),
           (if isConnectionError err then reset d1 else d1), result', w'))"
    and sw: "Raw_switch env res rows result w3 =
      (case raw_map env conv msg assign rows of (err, m) \<Rightarrow> (err, P m, w3))"
  shows "Raw env result query args driver w = (None, d', result', w') \<longleftrightarrow>
           (\<exists>m'. d' = d1 \<and> w' = w3 \<and> result' = P (Some m')
                 \<and> map_after_rows env conv rows assign m')"
proof -
  obtain oe r where rm: "raw_map env conv msg assign rows = (oe, r)"
    by (cases "raw_map env conv msg assign rows") auto
  show ?thesis
  proof (cases oe)
    case (Some e)
    have no: "\<not> map_after_rows env conv rows assign m'" for m'
    proof
      assume "map_after_rows env conv rows assign m'"
      then have "raw_map env conv msg assign rows = (None, Some m')"
        using raw_map_iff [of env conv msg assign rows "Some m'"] by simp
      then show False using rm Some by simp
    qed
    have err: "fst (Raw env result query args driver w) \<noteq> None"
      using Some rm by (simp add: run sw)
    show ?thesis
    proof
      assume "Raw env result query args driver w = (None, d', result', w')"
      then have "fst (Raw env result query args driver w) = None" by simp
      then show "\<exists>m'. d' = d1 \<and> w' = w3 \<and> result' = P (Some m')
                 \<and> map_after_rows env conv rows assign m'"
        using err by simp
    next
      assume "\<exists>m'. d' = d1 \<and> w' = w3 \<and> result' = P (Some m')
                 \<and> map_after_rows env conv rows assign m'"
      then obtain m' where "map_after_rows env conv rows assign m'" by blast
      then show "Raw env result query args driver w = (None, d', result', w')"
        using no by blast
    qed
  next
    case None
    have "\<exists>m'. r = Some m' \<and> map_after_rows env conv rows assign m'"
      using raw_map_iff [of env conv msg assign rows r] rm None by simp
    then obtain m1 where r: "r = Some m1" and ok: "map_after_rows env conv rows assign m1"
      by blast
    have uniq: "m' = m1" if "map_after_rows env conv rows assign m'" for m'
    proof -
      have "raw_map env conv msg assign rows = (None, Some m')"
        using raw_map_iff [of env conv msg assign rows "Some m'"] that by simp
      then show ?thesis using rm r by simp
    qed
    have R: "Raw env result query args driver w = (None, d1, P (Some m1), w3)"
      using None rm r by (simp add: run sw)
    show ?thesis
    proof
      assume "Raw env result query args driver w = (None, d', result', w')"
      then have "d' = d1" "w' = w3" "result' = P (Some m1)" using R by simp_all
      then show "\<exists>m'. d' = d1 \<and> w' = w3 \<and> result' = P (Some m')
                 \<and> map_after_rows env conv rows assign m'"
        using ok by (intro exI [of _ m1]) simp
    next
      assume "\<exists>m'. d' = d1 \<and> w' = w3 \<and> result' = P (Some m')
                 \<and> map_after_rows env conv rows assign m'"
      then obtain m' where e: "d' = d1" "w' = w3" "result' = P (Some m')"
        and ma: "map_after_rows env conv rows assign m'"
        by blast
      have "m' = m1" by (rule uniq [OF ma])
      then show "Raw env result query args driver w = (None, d', result', w')"
        using R e by simp
    qed
  qed
qed

text \<open>
  Claim C8, as the code has it, for each of the seven string-keyed map destinations.
  Let the connection be acquired and the query deliver a result set. \<open>Raw\<close> into a
  map succeeds exactly when the column names can be read and every row scans into the
  map's value type, and the mapping it leaves is the one \<open>map_after_rows\<close> describes:
  the entries it had before the call (none when it was nil) and, when there is at least
  one row, over them one entry for each column name with the scanned value of the last
  row, so that later rows overwrite earlier ones; with no row exactly its earlier
  entries.
\<close>

theorem Raw_map_keys:
  assumes "db env driver w = (Inr h, d1, w1)"
    and "gorm_Raw env h query args w1 = ((res, None), w2)"
    and "gorm_Rows env res w2 = (Inr rows, w3)"
  shows "(Raw env (PMapBool mbool) query args driver w = (None, d', result', w') \<longleftrightarrow>
            (\<exists>m'. d' = d1 \<and> w' = w3 \<and> result' = PMapBool (Some m')
                  \<and> map_after_rows env (conv_bool env) rows mbool m'))
       \<and> (Raw env (PMapInt mint) query args driver w = (None, d', result', w') \<longleftrightarrow>
            (\<exists>m'. d' = d1 \<and> w' = w3 \<and> result' = PMapInt (Some m')
                  \<and> map_after_rows env (conv_int env) rows mint m'))
       \<and> (Raw env (PMapInt64 mlong) query args driver w = (None, d', result', w') \<longleftrightarrow>
            (\<exists>m'. d' = d1 \<and> w' = w3 \<and> result' = PMapInt64 (Some m')
                  \<and> map_after_rows env (conv_int64 env) rows mlong m'))
       \<and> (Raw env (PMapByte mbyte) query args driver w = (None, d', result', w') \<longleftrightarrow>
            (\<exists>m'. d' = d1 \<and> w' = w3 \<and> result' = PMapByte (Some m')
                  \<and> map_after_rows env (conv_byte env) rows mbyte m'))
       \<and> (Raw env (PMapBytes mbytes) query args driver w = (None, d', result', w') \<longleftrightarrow>
            (\<exists>m'. d' = d1 \<and> w' = w3 \<and> result' = PMapBytes (Some m')
                  \<and> map_after_rows env (conv_bytes env) rows mbytes m'))
       \<and> (Raw env (PMapString mstring) query args driver w = (None, d', result', w') \<longleftrightarrow>
            (\<exists>m'. d' = d1 \<and> w' = w3 \<and> result' = PMapString (Some m')
                  \<and> map_after_rows env (conv_string env) rows mstring m'))
       \<and> (Raw env (PMapIface miface) query args driver w = (None, d', result', w') \<longleftrightarrow>
            (\<exists>m'. d' = d1 \<and> w' = w3 \<and> result' = PMapIface (Some m')
                  \<and> map_after_rows env Inr rows miface m'))"
proof (intro conjI)
  note run = Raw_run [OF assms]
  show "Raw env (PMapBool mbool) query args driver w = (None, d', result', w') \<longleftrightarrow>
            (\<exists>m'. d' = d1 \<and> w' = w3 \<and> result' = PMapBool (Some m')
                  \<and> map_after_rows env (conv_bool env) rows mbool m')"
    by (rule Raw_map_dest [OF run, where P = PMapBool and msg = "''gorm driver: getting columns from result T=*map[string]bool rows: ''"])
       (simp add: Raw_switch_def)
  show "Raw env (PMapInt mint) query args driver w = (None, d', result', w') \<longleftrightarrow>
            (\<exists>m'. d' = d1 \<and> w' = w3 \<and> result' = PMapInt (Some m')
                  \<and> map_after_rows env (conv_int env) rows mint m')"
    by (rule Raw_map_dest [OF run, where P = PMapInt and msg = "''gorm driver: getting columns from result T=*map[string]int rows: ''"])
       (simp add: Raw_switch_def)
  show "Raw env (PMapInt64 mlong) query args driver w = (None, d', result', w') \<longleftrightarrow>
            (\<exists>m'. d' = d1 \<and> w' = w3 \<and> result' = PMapInt64 (Some m')
                  \<and> map_after_rows env (conv_int64 env) rows mlong m')"
    by (rule Raw_map_dest [OF run, where P = PMapInt64 and msg = "''getting columns from result T=*map[string]int64 rows: ''"])
       (simp add: Raw_switch_def)
  show "Raw env (PMapByte mbyte) query args driver w = (None, d', result', w') \<longleftrightarrow>
            (\<exists>m'. d' = d1 \<and> w' = w3 \<and> result' = PMapByte (Some m')
                  \<and> map_after_rows env (conv_byte env) rows mbyte m')"
    by (rule Raw_map_dest [OF run, where P = PMapByte and msg = "''getting columns from result T=*map[string]uint8 rows: ''"])
       (simp add: Raw_switch_def)
  show "Raw env (PMapBytes mbytes) query args driver w = (None, d', result', w') \<longleftrightarrow>
            (\<exists>m'. d' = d1 \<and> w' = w3 \<and> result' = PMapBytes (Some m')
                  \<and> map_after_rows env (conv_bytes env) rows mbytes m')"
    by (rule Raw_map_dest [OF run, where P = PMapBytes and msg = "''getting columns from result T=*map[string][]uint8 rows: ''"])
       (simp add: Raw_switch_def)
  show "Raw env (PMapString mstring) query args driver w = (None, d', result', w') \<longleftrightarrow>
            (\<exists>m'. d' = d1 \<and> w' = w3 \<and> result' = PMapString (Some m')
                  \<and> map_after_rows env (conv_string env) rows mstring m')"
    by (rule Raw_map_dest [OF run, where P = PMapString and msg = "''getting columns from result T=*map[string]string rows: ''"])
       (simp add: Raw_switch_def)
  show "Raw env (PMapIface miface) query args driver w = (None, d', result', w') \<longleftrightarrow>
            (\<exists>m'. d' = d1 \<and> w' = w3 \<and> result' = PMapIface (Some m')
                  \<and> map_after_rows env Inr rows miface m')"
    by (rule Raw_map_dest [OF run, where P = PMapIface and msg = "''getting columns from result T=*map[string]interface {} rows: ''"])
       (simp add: Raw_switch_def)
qed

lemma demo_raw_luke:
  "gorm_Raw demo_backend 7 ''luke'' [] [''connect alpha''] = ((101, None), [''connect alpha'', ''raw luke''])"
  by (simp add: demo_backend_def)

lemma demo_rows_luke:
  "gorm_Rows demo_backend 101 [''connect alpha'', ''raw luke'']
     = (Inr \<lparr>rows_Columns = Inr [''id'', ''name'', ''home_planet''],
              rows_data = [[SqlInt64 1, SqlBytes ''Luke'', SqlBytes ''Tatooine'']]\<rparr>,
        [''connect alpha'', ''raw luke'', ''rows''])"
  by (simp add: demo_backend_def demo_rows_def)

lemma demo_luke_iface:
  "map_after_rows demo_backend Inr
     \<lparr>rows_Columns = Inr [''id'', ''name'', ''home_planet''],
      rows_data = [[SqlInt64 1, SqlBytes ''Luke'', SqlBytes ''Tatooine'']]\<rparr> None
     [''id'' \<mapsto> SqlInt64 1, ''name'' \<mapsto> SqlBytes ''Luke'', ''home_planet'' \<mapsto> SqlBytes ''Tatooine'']"
  by (auto simp: map_after_rows_def Scan_def less_Suc_eq)

lemma demo_luke_string:
  "map_after_rows demo_backend (conv_string demo_backend)
     \<lparr>rows_Columns = Inr [''id'', ''name'', ''home_planet''],
      rows_data = [[SqlInt64 1, SqlBytes ''Luke'', SqlBytes ''Tatooine'']]\<rparr> None
     [''id'' \<mapsto> ''1'', ''name'' \<mapsto> ''Luke'', ''home_planet'' \<mapsto> ''Tatooine'']"
  by (auto simp: map_after_rows_def Scan_def less_Suc_eq demo_backend_def demo_conv_string_def
      showInt_def showNat.simps digit_def)

text \<open>
  The query \<open>luke\<close> of the example backend has the columns \<open>id\<close>, \<open>name\<close>,
  \<open>home_planet\<close> and one row: a nil \<open>map[string]interface{}\<close> and a nil
  \<open>map[string]string\<close> each receive three entries, those keys with the values of the
  row.
\<close>

theorem Raw_map_keys_witness:
  "Raw demo_backend (PMapIface None) ''luke'' [] demo_driver []
     = (None,
        \<lparr>driverName = ''postgres'',
         connectionStrings = \<lparr>ring_cells = [''alpha'', ''down'', ''gamma''], ring_pos = 1\<rparr>,
         currentDb = Some 7\<rparr>,
        PMapIface (Some [''id'' \<mapsto> SqlInt64 1, ''name'' \<mapsto> SqlBytes ''Luke'',
                         ''home_planet'' \<mapsto> SqlBytes ''Tatooine'']),
        [''connect alpha'', ''raw luke'', ''rows''])
   \<and> Raw demo_backend (PMapString None) ''luke'' [] demo_driver []
     = (None,
        \<lparr>driverName = ''postgres'',
         connectionStrings = \<lparr>ring_cells = [''alpha'', ''down'', ''gamma''], ring_pos = 1\<rparr>,
         currentDb = Some 7\<rparr>,
        PMapString (Some [''id'' \<mapsto> ''1'', ''name'' \<mapsto> ''Luke'', ''home_planet'' \<mapsto> ''Tatooine'']),
        [''connect alpha'', ''raw luke'', ''rows''])
   \<and> dom [''id'' \<mapsto> SqlInt64 1, ''name'' \<mapsto> SqlBytes ''Luke'',
            ''home_planet'' \<mapsto> SqlBytes ''Tatooine''] = {''id'', ''name'', ''home_planet''}
   \<and> card {''id'', ''name'', ''home_planet''} = 3"
proof -
  note t = Raw_map_keys [OF demo_db demo_raw_luke demo_rows_luke,
      where mstring = None and miface = None
        and w' = "[''connect alpha'', ''raw luke'', ''rows'']"
        and d' = "\<lparr>driverName = ''postgres'',
             connectionStrings = \<lparr>ring_cells = [''alpha'', ''down'', ''gamma''], ring_pos = 1\<rparr>,
             currentDb = Some 7\<rparr>"]
  have "Raw demo_backend (PMapIface None) ''luke'' [] demo_driver []
     = (None,
        \<lparr>driverName = ''postgres'',
         connectionStrings = \<lparr>ring_cells = [''alpha'', ''down'', ''gamma''], ring_pos = 1\<rparr>,
         currentDb = Some 7\<rparr>,
        PMapIface (Some [''id'' \<mapsto> SqlInt64 1, ''name'' \<mapsto> SqlBytes ''Luke'',
                         ''home_planet'' \<mapsto> SqlBytes ''Tatooine'']),
        [''connect alpha'', ''raw luke'', ''rows''])"
    using t [where result' = "PMapIface (Some [''id'' \<mapsto> SqlInt64 1, ''name'' \<mapsto> SqlBytes ''Luke'',
                         ''home_planet'' \<mapsto> SqlBytes ''Tatooine''])"] demo_luke_iface
    by blast
  moreover have "Raw demo_backend (PMapString None) ''luke'' [] demo_driver []
     = (None,
        \<lparr>driverName = ''postgres'',
         connectionStrings = \<lparr>ring_cells = [''alpha'', ''down'', ''gamma''], ring_pos = 1\<rparr>,
         currentDb = Some 7\<rparr>,
        PMapString (Some [''id'' \<mapsto> ''1'', ''name'' \<mapsto> ''Luke'', ''home_planet'' \<mapsto> ''Tatooine'']),
        [''connect alpha'', ''raw luke'', ''rows''])"
    using t [where result' = "PMapString (Some [''id'' \<mapsto> ''1'', ''name'' \<mapsto> ''Luke'',
                         ''home_planet'' \<mapsto> ''Tatooine''])"] demo_luke_string
    by blast
  moreover have "dom [''id'' \<mapsto> SqlInt64 1, ''name'' \<mapsto> SqlBytes ''Luke'',
            ''home_planet'' \<mapsto> SqlBytes ''Tatooine''] = {''id'', ''name'', ''home_planet''}"
    by auto
  moreover have "card {''id'', ''name'', ''home_planet''} = 3"
    by simp
  ultimately show ?thesis by (intro conjI)
qed

text \<open>
  A query with the same three columns and no row succeeds and leaves the nil mapping
  empty: no entry for any result column.
\<close>

theorem Raw_map_no_rows_counterexample:
  "rows_Columns (demo_rows 102) = Inr [''id'', ''name'', ''home_planet'']
   \<and> Raw demo_backend (PMapIface None) ''nobody'' [] demo_driver []
       = (None,
          \<lparr>driverName = ''postgres'',
           connectionStrings = \<lparr>ring_cells = [''alpha'', ''down'', ''gamma''], ring_pos = 1\<rparr>,
           currentDb = Some 7\<rparr>,
          PMapIface (Some Map.empty), [''connect alpha'', ''raw nobody'', ''rows''])"
  by (simp add: Raw_def withDb_def demo_db)
     (simp add: demo_backend_def demo_rows_def Raw_switch_def raw_map_def)

end
